theory Spec2Isabelle
  imports Main "HOL-Library.Word"
begin

section \<open>Python values used by \<^verbatim>\<open>bmail/text_mailer.py\<close>\<close>

text \<open>
  A Python 3 \<^verbatim>\<open>str\<close> is a sequence of Unicode code points and \<^verbatim>\<open>bytes\<close> a sequence
  of octets. Literals of the source are written \<open>str ''...''\<close>.
\<close>

type_synonym pystr = "nat list"
type_synonym pybytes = "8 word list"

definition str :: "string \<Rightarrow> pystr" where
  "str s = map of_char s"

text \<open>
  The exceptions that can reach the mailer. \<open>AttributeError ty attr\<close> is what Python raises
  for \<^verbatim>\<open>obj.attr\<close> when an object of type \<open>ty\<close> has no such attribute;
  \<open>UnicodeDecodeError\<close> is raised by \<^verbatim>\<open>bytes.decode('UTF-8')\<close>; \<open>PyError cls msg\<close> is any
  exception raised inside a collaborator (template, loader, SMTP client, logger), given by
  its class name and message.
\<close>

datatype exc =
    AttributeError string string
  | UnicodeDecodeError
  | PyError string string

fun exc_class :: "exc \<Rightarrow> string" where
  "exc_class (AttributeError ty attr) = ''AttributeError''"
| "exc_class UnicodeDecodeError = ''UnicodeDecodeError''"
| "exc_class (PyError cls msg) = cls"

text \<open>The values a template can produce and \<^verbatim>\<open>MIMEText\<close> can be given.\<close>

datatype pyval = PStr pystr | PBytes pybytes | PNone

fun type_name :: "pyval \<Rightarrow> string" where
  "type_name (PStr s) = ''str''"
| "type_name (PBytes b) = ''bytes''"
| "type_name PNone = ''NoneType''"

text \<open>
  \<^verbatim>\<open>a or b\<close> on values that are \<^verbatim>\<open>None\<close> or a \<^verbatim>\<open>str\<close>: \<^verbatim>\<open>None\<close> and \<^verbatim>\<open>''\<close> are falsy.
\<close>

fun truthy :: "pystr option \<Rightarrow> bool" where
  "truthy None = False"
| "truthy (Some s) = (s \<noteq> [])"

definition py_or :: "pystr option \<Rightarrow> pystr option \<Rightarrow> pystr option" where
  "py_or a b = (if truthy a then a else b)"

definition or_str :: "pystr option \<Rightarrow> pystr \<Rightarrow> pystr" where
  \<comment> \<open>\<^verbatim>\<open>a or d\<close> with \<open>d\<close> a string, as in \<^verbatim>\<open>self.host or '127.0.0.1'\<close> and \<^verbatim>\<open>cc or ''\<close>\<close>
  "or_str a d = (case a of None \<Rightarrow> d | Some s \<Rightarrow> if s = [] then d else s)"

subsection \<open>\<^verbatim>\<open>str.split(',')\<close> and \<^verbatim>\<open>str.strip()\<close>\<close>

text \<open>
  \<^verbatim>\<open>s.split(',')\<close> cuts at every comma and keeps empty pieces: \<^verbatim>\<open>''.split(',') == ['']\<close>.
\<close>

definition comma :: nat where
  "comma = 44"

fun split_comma :: "pystr \<Rightarrow> pystr list" where
  "split_comma [] = [[]]"
| "split_comma (c # cs) =
     (if c = comma then [] # split_comma cs
      else (case split_comma cs of
              [] \<Rightarrow> [[c]]
            | w # ws \<Rightarrow> (c # w) # ws))"

text \<open>
  The code points Python's \<^verbatim>\<open>str.strip()\<close> removes (those with \<^verbatim>\<open>str.isspace()\<close>).
\<close>

definition is_space :: "nat \<Rightarrow> bool" where
  "is_space c \<longleftrightarrow>
     (9 \<le> c \<and> c \<le> 13) \<or> (28 \<le> c \<and> c \<le> 32) \<or> c = 133 \<or> c = 160 \<or> c = 5760
     \<or> (8192 \<le> c \<and> c \<le> 8202) \<or> c = 8232 \<or> c = 8233 \<or> c = 8239 \<or> c = 8287
     \<or> c = 12288"

definition strip :: "pystr \<Rightarrow> pystr" where
  "strip s = rev (dropWhile is_space (rev (dropWhile is_space s)))"

section \<open>The message object (\<^verbatim>\<open>email.mime.text.MIMEText\<close>)\<close>

text \<open>
  A message is its list of headers, in the order they were added, and its payload. A header
  value may be \<^verbatim>\<open>None\<close>: \<^verbatim>\<open>msg['Subject'] = None\<close> stores it as it is.
\<close>

record message =
  headers :: "(pystr \<times> pystr option) list"
  payload :: pystr

definition lower_ascii :: "pystr \<Rightarrow> pystr" where
  "lower_ascii s = map (\<lambda>c. if 65 \<le> c \<and> c \<le> 90 then c + 32 else c) s"

text \<open>
  Header names are matched without regard to case. The mailer only looks up \<^verbatim>\<open>From\<close>,
  \<^verbatim>\<open>To\<close>, \<^verbatim>\<open>Cc\<close> and \<^verbatim>\<open>Bcc\<close>, whose letters are the lower case of no code point
  outside ASCII, so lowering the ASCII letters decides the match.
\<close>

definition name_eq :: "pystr \<Rightarrow> pystr \<Rightarrow> bool" where
  "name_eq k name \<longleftrightarrow> lower_ascii k = lower_ascii name"

definition set_item :: "pystr \<Rightarrow> pystr option \<Rightarrow> message \<Rightarrow> message" where
  \<comment> \<open>\<^verbatim>\<open>msg[name] = value\<close> appends a header; it does not replace one.\<close>
  "set_item name v msg = msg\<lparr>headers := headers msg @ [(name, v)]\<rparr>"

definition add_header :: "pystr \<Rightarrow> pystr \<Rightarrow> message \<Rightarrow> message" where
  "add_header name v msg = msg\<lparr>headers := headers msg @ [(name, Some v)]\<rparr>"

definition get_all :: "pystr \<Rightarrow> message \<Rightarrow> pystr option list option" where
  \<comment> \<open>\<^verbatim>\<open>msg.get_all(name)\<close>: every value under that name, or \<^verbatim>\<open>None\<close> when there is none.\<close>
  "get_all name msg =
     (case map snd (filter (\<lambda>(k, v). name_eq k name) (headers msg)) of
        [] \<Rightarrow> None
      | vs \<Rightarrow> Some vs)"

definition get_item :: "pystr \<Rightarrow> message \<Rightarrow> pystr option" where
  \<comment> \<open>\<^verbatim>\<open>msg[name]\<close>: the first value under that name, \<^verbatim>\<open>None\<close> when there is none.\<close>
  "get_item name msg =
     (case filter (\<lambda>(k, v). name_eq k name) (headers msg) of
        [] \<Rightarrow> None
      | (k, v) # rest \<Rightarrow> v)"

definition is_ascii :: "pystr \<Rightarrow> bool" where
  "is_ascii s \<longleftrightarrow> list_all (\<lambda>c. c < 128) s"

text \<open>
  \<^verbatim>\<open>MIMEText(text)\<close> calls \<^verbatim>\<open>text.encode\<close>, which only a \<^verbatim>\<open>str\<close> has, and starts the
  message with its three MIME headers; the character set is \<^verbatim>\<open>us-ascii\<close> when the text
  is ASCII and \<^verbatim>\<open>utf-8\<close> otherwise. None of these headers is an address header, which
  is all the properties below use of them.
\<close>

definition mime_headers :: "pystr \<Rightarrow> (pystr \<times> pystr option) list" where
  "mime_headers s =
     (if is_ascii s
      then [(str ''Content-Type'', Some (str ''text/plain; charset=\"us-ascii\"'')),
            (str ''MIME-Version'', Some (str ''1.0'')),
            (str ''Content-Transfer-Encoding'', Some (str ''7bit''))]
      else [(str ''Content-Type'', Some (str ''text/plain; charset=\"utf-8\"'')),
            (str ''MIME-Version'', Some (str ''1.0'')),
            (str ''Content-Transfer-Encoding'', Some (str ''base64''))])"

fun MIMEText :: "pyval \<Rightarrow> exc + message" where
  "MIMEText (PStr s) = Inr \<lparr>headers = mime_headers s, payload = s\<rparr>"
| "MIMEText v = Inl (AttributeError (type_name v) ''encode'')"


subsection \<open>\<^verbatim>\<open>bytes.decode('UTF-8')\<close>\<close>

text \<open>
  The strict decoder: a byte sequence that is not well-formed UTF-8 (a stray continuation
  byte, a truncated or overlong sequence, a surrogate, a code point above U+10FFFF) raises
  \<^verbatim>\<open>UnicodeDecodeError\<close>.
\<close>

definition is_cont :: "nat \<Rightarrow> bool" where
  "is_cont b \<longleftrightarrow> 128 \<le> b \<and> b \<le> 191"

fun utf8_points :: "nat list \<Rightarrow> pystr option" where
  "utf8_points [] = Some []"
| "utf8_points (b0 # bs) =
     (if b0 < 128 then map_option ((#) b0) (utf8_points bs)
      else if 194 \<le> b0 \<and> b0 \<le> 223 then
        (case bs of
           b1 # r \<Rightarrow>
             if is_cont b1
             then map_option ((#) ((b0 - 192) * 64 + (b1 - 128))) (utf8_points r)
             else None
         | _ \<Rightarrow> None)
      else if 224 \<le> b0 \<and> b0 \<le> 239 then
        (case bs of
           b1 # b2 # r \<Rightarrow>
             if (if b0 = 224 then 160 else 128) \<le> b1 \<and> b1 \<le> (if b0 = 237 then 159 else 191)
                \<and> is_cont b2
             then map_option ((#) ((b0 - 224) * 4096 + (b1 - 128) * 64 + (b2 - 128)))
                    (utf8_points r)
             else None
         | _ \<Rightarrow> None)
      else if 240 \<le> b0 \<and> b0 \<le> 244 then
        (case bs of
           b1 # b2 # b3 # r \<Rightarrow>
             if (if b0 = 240 then 144 else 128) \<le> b1 \<and> b1 \<le> (if b0 = 244 then 143 else 191)
                \<and> is_cont b2 \<and> is_cont b3
             then map_option
                    ((#) ((b0 - 240) * 262144 + (b1 - 128) * 4096 + (b2 - 128) * 64 + (b3 - 128)))
                    (utf8_points r)
             else None
         | _ \<Rightarrow> None)
      else None)"

definition decode_utf8 :: "pybytes \<Rightarrow> exc + pystr" where
  "decode_utf8 b =
     (case utf8_points (map unat b) of
        None \<Rightarrow> Inl UnicodeDecodeError
      | Some s \<Rightarrow> Inr s)"

section \<open>Templates and the mailer\<close>

text \<open>
  A template argument is a \<^verbatim>\<open>str\<close> (a name for the loader) or an object of some class
  that may or may not have a \<^verbatim>\<open>render\<close> and a \<^verbatim>\<open>generate\<close> method; a method takes the
  keyword arguments and returns a value or raises.
\<close>

type_synonym kwargs = "(pystr \<times> pyval) list"

datatype template =
    TStr pystr
  | TObj (tclass: string)
         (render_method: "(kwargs \<Rightarrow> exc + pyval) option")
         (generate_method: "(kwargs \<Rightarrow> exc + pyval) option")

fun template_render :: "template \<Rightarrow> kwargs \<Rightarrow> exc + pyval" where
  \<comment> \<open>\<^verbatim>\<open>template.render(**context)\<close>\<close>
  "template_render (TStr s) c = Inl (AttributeError ''str'' ''render'')"
| "template_render (TObj cls None g) c = Inl (AttributeError cls ''render'')"
| "template_render (TObj cls (Some f) g) c = f c"

fun template_generate :: "template \<Rightarrow> kwargs \<Rightarrow> exc + pyval" where
  \<comment> \<open>\<^verbatim>\<open>template.generate(**context)\<close>\<close>
  "template_generate (TStr s) c = Inl (AttributeError ''str'' ''generate'')"
| "template_generate (TObj cls r None) c = Inl (AttributeError cls ''generate'')"
| "template_generate (TObj cls r (Some f)) c = f c"

text \<open>
  The mailer is a \<^verbatim>\<open>Dict\<close> of its \<^verbatim>\<open>Email\<close> parameters, read as attributes; a parameter
  that was not given reads as \<^verbatim>\<open>None\<close>. \<open>debug\<close> is the boolean of the configuration (an
  absent one behaves as \<^verbatim>\<open>False\<close> in both tests the code makes). \<open>loader\<close> is the
  \<^verbatim>\<open>load\<close> method of the loader object, set by the constructor.
\<close>

record text_mailer =
  template_path :: "pystr option"
  host :: "pystr option"
  port :: "nat option"
  from_address :: "pystr option"
  to_address :: "pystr option"
  delivery :: "pystr option"
  username :: "pystr option"
  password :: "pystr option"
  debug :: bool
  loader :: "(pystr \<Rightarrow> exc + template) option"

text \<open>
  \<^verbatim>\<open>__init__\<close>: the loader is built from \<^verbatim>\<open>template_path\<close> only when one is given.
  \<open>loader_class\<close> maps the search path to the loader's \<^verbatim>\<open>load\<close>.
\<close>

definition TextMailer ::
  "(pystr \<Rightarrow> pystr \<Rightarrow> exc + template) \<Rightarrow> pystr option \<Rightarrow> pystr option \<Rightarrow> nat option \<Rightarrow>
   pystr option \<Rightarrow> pystr option \<Rightarrow> pystr option \<Rightarrow> pystr option \<Rightarrow> pystr option \<Rightarrow> bool \<Rightarrow>
   text_mailer" where
  "TextMailer loader_class tp h p fa ta d u pw dbg =
     \<lparr>template_path = tp, host = h, port = p, from_address = fa, to_address = ta,
      delivery = d, username = u, password = pw, debug = dbg,
      loader = (case tp of None \<Rightarrow> None | Some path \<Rightarrow> Some (loader_class path))\<rparr>"

definition render :: "text_mailer \<Rightarrow> template \<Rightarrow> kwargs \<Rightarrow> exc + pyval" where
  "render m template c =
     (case (case template of
              TStr name \<Rightarrow> (case loader m of None \<Rightarrow> Inr template | Some load \<Rightarrow> load name)
            | TObj cls r g \<Rightarrow> Inr template) of
        Inl e \<Rightarrow> Inl e
      | Inr t \<Rightarrow>
          (case (case template_render t c of
                   Inl e \<Rightarrow> template_generate t c
                 | Inr r \<Rightarrow> Inr r) of
             Inl e \<Rightarrow> Inl e
           | Inr r \<Rightarrow>
               (case r of
                  PBytes b \<Rightarrow> (case decode_utf8 b of Inl e \<Rightarrow> Inl e | Inr s \<Rightarrow> Inr (PStr s))
                | _ \<Rightarrow> Inr r)))"

subsection \<open>\<^verbatim>\<open>message\<close>\<close>

record msg_args =
  template_arg :: "template option"
  text_arg :: pyval
  to_addr :: "pystr option"
  subject :: "pystr option"
  from_addr :: "pystr option"
  cc :: "pystr option"
  bcc :: "pystr option"
  ctx :: kwargs

definition opt_val :: "pystr option \<Rightarrow> pyval" where
  "opt_val a = (case a of None \<Rightarrow> PNone | Some s \<Rightarrow> PStr s)"

definition add_addrs :: "pystr \<Rightarrow> pystr \<Rightarrow> message \<Rightarrow> message" where
  \<comment> \<open>\<^verbatim>\<open>for addr in [addr for addr in s.split(',') if addr.strip() != '']:
        msg.add_header(name, addr.strip())\<close>\<close>
  "add_addrs name s msg =
     fold (\<lambda>addr. add_header name (strip addr))
          (filter (\<lambda>addr. strip addr \<noteq> []) (split_comma s)) msg"

definition message :: "text_mailer \<Rightarrow> msg_args \<Rightarrow> exc + message" where
  "message m a =
     (case (case template_arg a of
              None \<Rightarrow> Inr (text_arg a)
            | Some t \<Rightarrow>
                render m t
                  ([(str ''to_addr'', opt_val (py_or (to_addr a) (to_address m))),
                    (str ''from_addr'', opt_val (from_addr a)),
                    (str ''cc'', opt_val (cc a)),
                    (str ''bcc'', opt_val (bcc a))] @ ctx a)) of
        Inl e \<Rightarrow> Inl e
      | Inr txt \<Rightarrow>
          (case MIMEText txt of
             Inl e \<Rightarrow> Inl e
           | Inr msg \<Rightarrow>
               Inr (add_addrs (str ''Bcc'') (or_str (bcc a) [])
                   (add_addrs (str ''Cc'') (or_str (cc a) [])
                   (add_addrs (str ''To'') (or_str (py_or (to_addr a) (to_address m)) [])
                   (set_item (str ''Subject'') (subject a)
                   (set_item (str ''From'') (py_or (from_addr a) (from_address m)) msg)))))))"

section \<open>Delivery\<close>

text \<open>
  What \<^verbatim>\<open>send\<close> does to the outside world is a trace of events: the calls to the SMTP
  client and to the logger, in order. The world answers each call by returning or by
  raising; its answer may depend on everything that happened before, so it is a function
  of the trace up to and including the call. Serialising the message (\<^verbatim>\<open>msg.as_string()\<close>)
  has no effect on the world: it returns the text or raises.
\<close>

datatype smtp_call =
    Connect pystr "nat option"
  | SetDebuglevel nat
  | Login pystr pystr
  | Sendmail "pystr option" pystr pystr
  | Quit

datatype log_line =
    LogFrom "pystr option"
  | LogTo pystr
  | LogTrace exc
  | LogSummary exc

datatype event = Smtp smtp_call | Log log_line

record env =
  respond :: "event list \<Rightarrow> exc option"
  as_string :: "message \<Rightarrow> exc + pystr"

type_synonym 'a io = "event list \<Rightarrow> (exc + 'a) \<times> event list"

definition call :: "env \<Rightarrow> event \<Rightarrow> unit io" where
  "call e ev h =
     (case respond e (h @ [ev]) of
        None \<Rightarrow> (Inr (), h @ [ev])
      | Some x \<Rightarrow> (Inl x, h @ [ev]))"

definition skip :: "unit io" where
  "skip h = (Inr (), h)"

definition and_then :: "unit io \<Rightarrow> unit io \<Rightarrow> unit io" where
  \<comment> \<open>two statements in sequence: the second runs only when the first did not raise\<close>
  "and_then p q h =
     (case p h of
        (Inl x, h') \<Rightarrow> (Inl x, h')
      | (Inr u, h') \<Rightarrow> q h')"

datatype send_result = ReturnNone | ReturnText pystr | ReturnExc exc

definition tolist :: "message \<Rightarrow> pystr list" where
  "tolist msg =
     concat (map (\<lambda>addr. case addr of
                           None \<Rightarrow> []
                         | Some a \<Rightarrow> if strip a \<noteq> [] then [a] else [])
       ((case get_all (str ''To'') msg of None \<Rightarrow> [] | Some vs \<Rightarrow> vs)
        @ (case get_all (str ''Cc'') msg of None \<Rightarrow> [] | Some vs \<Rightarrow> vs)
        @ (case get_all (str ''Bcc'') msg of None \<Rightarrow> [] | Some vs \<Rightarrow> vs)))"

fun sendmail_loop ::
  "env \<Rightarrow> text_mailer \<Rightarrow> message \<Rightarrow> pystr option \<Rightarrow> pystr list \<Rightarrow> unit io" where
  "sendmail_loop e m msg fromaddr [] = skip"
| "sendmail_loop e m msg fromaddr (toaddr # rest) =
     and_then (if debug m then call e (Log (LogTo toaddr)) else skip)
    (and_then (\<lambda>h. case as_string e msg of
                      Inl x \<Rightarrow> (Inl x, h)
                    | Inr body \<Rightarrow> call e (Smtp (Sendmail fromaddr toaddr body)) h)
              (sendmail_loop e m msg fromaddr rest))"

definition smtp_session ::
  "env \<Rightarrow> text_mailer \<Rightarrow> message \<Rightarrow> pystr option \<Rightarrow> pystr list \<Rightarrow> unit io" where
  \<comment> \<open>the body of the \<^verbatim>\<open>try\<close>\<close>
  "smtp_session e m msg fromaddr tos =
     and_then (call e (Smtp (Connect (or_str (host m) (str ''127.0.0.1'')) (port m))))
    (and_then (call e (Smtp (SetDebuglevel (if debug m then 1 else 0))))
    (and_then (case (username m, password m) of
                 (Some u, Some p) \<Rightarrow> call e (Smtp (Login u p))
               | _ \<Rightarrow> skip)
    (and_then (sendmail_loop e m msg fromaddr tos)
              (call e (Smtp Quit)))))"

definition send :: "env \<Rightarrow> text_mailer \<Rightarrow> message \<Rightarrow> send_result io" where
  "send e m msg h =
     (if delivery m = Some (str ''test'') then
        (case as_string e msg of
           Inl x \<Rightarrow> (Inl x, h)
         | Inr s \<Rightarrow> (Inr (ReturnText s), h))
      else if delivery m = Some (str ''smtp'') then
        (let fromaddr = get_item (str ''From'') msg in
         case (if debug m then call e (Log (LogFrom fromaddr)) else skip) h of
           (Inl x, h1) \<Rightarrow> (Inl x, h1)
         | (Inr u, h1) \<Rightarrow>
             (case smtp_session e m msg fromaddr (tolist msg) h1 of
                (Inr u, h2) \<Rightarrow> (Inr ReturnNone, h2)
              | (Inl x, h2) \<Rightarrow>
                  (case call e (Log (if debug m then LogTrace x else LogSummary x)) h2 of
                     (Inl y, h3) \<Rightarrow> (Inl y, h3)
                   | (Inr u, h3) \<Rightarrow> (Inr (ReturnExc x), h3))))
      else (Inr ReturnNone, h))"

definition send_message :: "env \<Rightarrow> text_mailer \<Rightarrow> msg_args \<Rightarrow> send_result io" where
  "send_message e m a h =
     (case message m a of
        Inl x \<Rightarrow> (Inl x, h)
      | Inr msg \<Rightarrow> send e m msg h)"

section \<open>The delivery transaction as a script\<close>

text \<open>
  For the proofs, the body of the \<^verbatim>\<open>try\<close> is read as a fixed list of actions, performed
  in order up to the first one that raises. \<open>Do ev\<close> is a call on the world; \<open>Raise x\<close> is a
  failure that leaves no event (a message that does not serialise).
\<close>

datatype action = Do event | Raise exc

fun perform :: "env \<Rightarrow> action list \<Rightarrow> unit io" where
  "perform e [] h = (Inr (), h)"
| "perform e (Raise x # acts) h = (Inl x, h)"
| "perform e (Do ev # acts) h =
     (case respond e (h @ [ev]) of
        None \<Rightarrow> perform e acts (h @ [ev])
      | Some x \<Rightarrow> (Inl x, h @ [ev]))"

fun events_of :: "action list \<Rightarrow> event list" where
  "events_of [] = []"
| "events_of (Do ev # acts) = ev # events_of acts"
| "events_of (Raise x # acts) = events_of acts"

definition submit :: "env \<Rightarrow> message \<Rightarrow> pystr option \<Rightarrow> pystr \<Rightarrow> action" where
  "submit e msg fromaddr toaddr =
     (case as_string e msg of
        Inl x \<Rightarrow> Raise x
      | Inr body \<Rightarrow> Do (Smtp (Sendmail fromaddr toaddr body)))"

definition loop_script ::
  "env \<Rightarrow> text_mailer \<Rightarrow> message \<Rightarrow> pystr option \<Rightarrow> pystr list \<Rightarrow> action list" where
  "loop_script e m msg fromaddr tos =
     concat (map (\<lambda>toaddr. (if debug m then [Do (Log (LogTo toaddr))] else [])
                            @ [submit e msg fromaddr toaddr]) tos)"

definition login_script :: "text_mailer \<Rightarrow> action list" where
  "login_script m =
     (case (username m, password m) of
        (Some u, Some p) \<Rightarrow> [Do (Smtp (Login u p))]
      | _ \<Rightarrow> [])"

definition session_script ::
  "env \<Rightarrow> text_mailer \<Rightarrow> message \<Rightarrow> pystr option \<Rightarrow> pystr list \<Rightarrow> action list" where
  "session_script e m msg fromaddr tos =
     [Do (Smtp (Connect (or_str (host m) (str ''127.0.0.1'')) (port m))),
      Do (Smtp (SetDebuglevel (if debug m then 1 else 0)))]
     @ login_script m @ loop_script e m msg fromaddr tos @ [Do (Smtp Quit)]"

text \<open>The \<^verbatim>\<open>sendmail\<close> calls of a trace, in order.\<close>

fun sendmails :: "event list \<Rightarrow> smtp_call list" where
  "sendmails [] = []"
| "sendmails (Smtp (Sendmail f t b) # evs) = Sendmail f t b # sendmails evs"
| "sendmails (ev # evs) = sendmails evs"

fun is_login :: "event \<Rightarrow> bool" where
  "is_login (Smtp (Login u p)) = True"
| "is_login ev = False"

fun is_smtp :: "event \<Rightarrow> bool" where
  "is_smtp (Smtp c) = True"
| "is_smtp (Log l) = False"

text \<open>
  The two places where \<^verbatim>\<open>send\<close> logs outside the loop: the \<^verbatim>\<open>From\<close> line before the
  \<^verbatim>\<open>try\<close> when debugging, and the caught error in the \<^verbatim>\<open>except\<close> clause (the trace
  when debugging, the one-line summary on the error stream otherwise).
\<close>

definition from_log :: "text_mailer \<Rightarrow> message \<Rightarrow> event list" where
  "from_log m msg = (if debug m then [Log (LogFrom (get_item (str ''From'') msg))] else [])"

definition error_log :: "text_mailer \<Rightarrow> exc \<Rightarrow> event" where
  "error_log m x = Log (if debug m then LogTrace x else LogSummary x)"

text \<open>
  The calls that open the connection (the constructor of the SMTP client and
  \<^verbatim>\<open>set_debuglevel\<close>), and the \<^verbatim>\<open>login\<close> call the credentials of the mailer lead to.
\<close>

definition connect_calls :: "text_mailer \<Rightarrow> event list" where
  "connect_calls m =
     [Smtp (Connect (or_str (host m) (str ''127.0.0.1'')) (port m)),
      Smtp (SetDebuglevel (if debug m then 1 else 0))]"

definition login_calls :: "text_mailer \<Rightarrow> event list" where
  "login_calls m =
     (case (username m, password m) of
        (Some u, Some p) \<Rightarrow> [Smtp (Login u p)]
      | _ \<Rightarrow> [])"

text \<open>The last step of \<^verbatim>\<open>render\<close>: bytes are decoded, any other value is returned as it is.\<close>

definition normalize :: "pyval \<Rightarrow> exc + pyval" where
  "normalize r =
     (case r of
        PBytes b \<Rightarrow> (case decode_utf8 b of Inl e \<Rightarrow> Inl e | Inr s \<Rightarrow> Inr (PStr s))
      | _ \<Rightarrow> Inr r)"

section \<open>In the words of the specification\<close>

text \<open>
  The specification describes the recipient list as all \<^verbatim>\<open>To\<close> header values, then all
  \<^verbatim>\<open>Cc\<close> values, then all \<^verbatim>\<open>Bcc\<close> values, with null, empty and whitespace-only entries
  dropped. \<open>recipients\<close> is that description; \<open>tolist\<close> above is the code.
\<close>

definition header_values :: "pystr \<Rightarrow> message \<Rightarrow> pystr option list" where
  "header_values name msg = map snd (filter (\<lambda>(k, v). name_eq k name) (headers msg))"

definition whitespace_only :: "pystr \<Rightarrow> bool" where
  "whitespace_only a \<longleftrightarrow> list_all is_space a"

definition recipients :: "message \<Rightarrow> pystr list" where
  "recipients msg =
     concat (map (\<lambda>v. case v of
                        None \<Rightarrow> []
                      | Some a \<Rightarrow> if a = [] \<or> whitespace_only a then [] else [a])
       (header_values (str ''To'') msg @ header_values (str ''Cc'') msg
        @ header_values (str ''Bcc'') msg))"

text \<open>
  The address tokens of a string in the words of the specification: split on commas, trim
  each token, discard the empty ones. (The code discards before it trims.)
\<close>

definition tokens :: "pystr \<Rightarrow> pystr list" where
  "tokens s = filter (\<lambda>t. t \<noteq> []) (map strip (split_comma s))"

subsection \<open>A UTF-8 encoder\<close>

text \<open>
  The encoder, to check the decoder against: every string of Unicode scalar values (code
  points that are not surrogates) is the decoding of its UTF-8 encoding.
\<close>

definition scalar_value :: "nat \<Rightarrow> bool" where
  "scalar_value c \<longleftrightarrow> c < 55296 \<or> (57344 \<le> c \<and> c < 1114112)"

definition utf8_encode_point :: "nat \<Rightarrow> nat list" where
  "utf8_encode_point c =
     (if c < 128 then [c]
      else if c < 2048 then [192 + c div 64, 128 + c mod 64]
      else if c < 65536 then [224 + c div 4096, 128 + c div 64 mod 64, 128 + c mod 64]
      else [240 + c div 262144, 128 + c div 4096 mod 64, 128 + c div 64 mod 64,
            128 + c mod 64])"

definition encode_utf8 :: "pystr \<Rightarrow> pybytes" where
  "encode_utf8 s = map of_nat (concat (map utf8_encode_point s))"

section \<open>Concrete inputs\<close>

text \<open>
  A world that answers every call by returning, and a serialiser that writes one line per
  header, an empty line and the payload.
\<close>

definition header_line :: "pystr \<times> pystr option \<Rightarrow> pystr" where
  "header_line kv = fst kv @ str '': '' @ or_str (snd kv) [] @ [10]"

definition demo_as_string :: "message \<Rightarrow> exc + pystr" where
  "demo_as_string msg = Inr (concat (map header_line (headers msg)) @ [10] @ payload msg)"

definition quiet_env :: env where
  "quiet_env = \<lparr>respond = (\<lambda>h. None), as_string = demo_as_string\<rparr>"

definition no_loader_class :: "pystr \<Rightarrow> pystr \<Rightarrow> exc + template" where
  "no_loader_class path name = Inl (PyError ''FileNotFoundError'' ''no such template'')"

definition demo_mailer :: text_mailer where
  "demo_mailer =
     TextMailer no_loader_class None None None (Some (str ''me@x.com''))
       (Some (str ''default@x.com'')) (Some (str ''smtp'')) None None False"

definition demo_msg :: message where
  "demo_msg =
     \<lparr>headers = [(str ''From'', Some (str ''me@x.com'')), (str ''To'', Some (str ''a@x.com''))],
      payload = str ''hi''\<rparr>"

text \<open>A world in which no SMTP server listens: every attempt to connect raises.\<close>

definition refused :: exc where
  "refused = PyError ''ConnectionRefusedError'' ''[Errno 111] Connection refused''"

definition refusing_env :: env where
  "refusing_env =
     \<lparr>respond = (\<lambda>h. case last h of Smtp (Connect hst prt) \<Rightarrow> Some refused | _ \<Rightarrow> None),
      as_string = demo_as_string\<rparr>"

text \<open>
  A world whose SMTP server refuses the recipient \<^verbatim>\<open>b@y.com\<close>, and two messages: one
  with three recipients, one that names the same recipient twice.
\<close>

definition bounced :: exc where
  "bounced = PyError ''SMTPRecipientsRefused'' ''b@y.com''"

definition bouncing_env :: env where
  "bouncing_env =
     \<lparr>respond = (\<lambda>h. case last h of
                        Smtp (Sendmail f t b) \<Rightarrow> if t = str ''b@y.com'' then Some bounced else None
                      | _ \<Rightarrow> None),
      as_string = demo_as_string\<rparr>"

definition three_msg :: message where
  "three_msg =
     \<lparr>headers = [(str ''From'', Some (str ''me@x.com'')), (str ''To'', Some (str ''a@x.com'')),
                 (str ''To'', Some (str ''b@y.com'')), (str ''Cc'', Some (str ''c@z.com''))],
      payload = str ''hi''\<rparr>"

definition dup_msg :: message where
  "dup_msg =
     \<lparr>headers = [(str ''From'', Some (str ''me@x.com'')), (str ''To'', Some (str ''a@x.com'')),
                 (str ''Subject'', None), (str ''CC'', Some (str ''a@x.com'')),
                 (str ''Bcc'', Some (str ''  ''))],
      payload = str ''hi''\<rparr>"

definition dup_text :: pystr where
  "dup_text = str ''From: me@x.com'' @ [10] @ str ''To: a@x.com'' @ [10] @ str ''Subject: ''
              @ [10] @ str ''CC: a@x.com'' @ [10] @ str ''Bcc:   '' @ [10, 10] @ str ''hi''"

definition three_text :: pystr where
  "three_text = str ''From: me@x.com'' @ [10] @ str ''To: a@x.com'' @ [10] @ str ''To: b@y.com''
              @ [10] @ str ''Cc: c@z.com'' @ [10, 10] @ str ''hi''"

text \<open>A mailer with both credentials, debugging; and one with a user name only.\<close>

definition auth_mailer :: text_mailer where
  "auth_mailer =
     demo_mailer\<lparr>username := Some (str ''user''), password := Some (str ''secret''),
       debug := True\<rparr>"

definition half_auth_mailer :: text_mailer where
  "half_auth_mailer = demo_mailer\<lparr>username := Some (str ''user'')\<rparr>"

text \<open>
  Templates: one whose \<^verbatim>\<open>render\<close> fails on a missing context variable and that also has
  a \<^verbatim>\<open>generate\<close>; one with \<^verbatim>\<open>generate\<close> only, which returns bytes; one with a failing
  \<^verbatim>\<open>render\<close> only.
\<close>

definition key_error :: exc where
  "key_error = PyError ''KeyError'' ''name''"

definition broken_template :: template where
  "broken_template =
     TObj ''Greeting'' (Some (\<lambda>c. Inl key_error)) (Some (\<lambda>c. Inr (PStr (str ''Dear customer''))))"

definition stream_template :: template where
  "stream_template =
     TObj ''Template'' None (Some (\<lambda>c. Inr (PBytes [0x48, 0x69, 0x20, 0xC3, 0xA9])))"

definition render_only_template :: template where
  "render_only_template = TObj ''Greeting'' (Some (\<lambda>c. Inl key_error)) None"

text \<open>
  Arguments for \<^verbatim>\<open>message\<close> with a text and no template, the message built from them, and
  the message built when \<^verbatim>\<open>to_addr\<close> is the empty string.
\<close>

definition hello_args :: msg_args where
  "hello_args =
     \<lparr>template_arg = None, text_arg = PStr (str ''hello''),
      to_addr = Some (str '' a@x.com ,, b@y.com , ''), subject = Some (str ''Greetings''),
      from_addr = None, cc = Some (str '' , ''), bcc = Some (str ''z@z.org, a@x.com''),
      ctx = []\<rparr>"

definition hello_msg :: message where
  "hello_msg =
     \<lparr>headers =
        [(str ''Content-Type'', Some (str ''text/plain; charset=\"us-ascii\"'')),
         (str ''MIME-Version'', Some (str ''1.0'')),
         (str ''Content-Transfer-Encoding'', Some (str ''7bit'')),
         (str ''From'', Some (str ''me@x.com'')),
         (str ''Subject'', Some (str ''Greetings'')),
         (str ''To'', Some (str ''a@x.com'')),
         (str ''To'', Some (str ''b@y.com'')),
         (str ''Bcc'', Some (str ''z@z.org'')),
         (str ''Bcc'', Some (str ''a@x.com''))],
      payload = str ''hello''\<rparr>"

definition default_msg :: message where
  "default_msg =
     \<lparr>headers =
        [(str ''Content-Type'', Some (str ''text/plain; charset=\"us-ascii\"'')),
         (str ''MIME-Version'', Some (str ''1.0'')),
         (str ''Content-Transfer-Encoding'', Some (str ''7bit'')),
         (str ''From'', Some (str ''me@x.com'')),
         (str ''Subject'', Some (str ''Greetings'')),
         (str ''To'', Some (str ''default@x.com'')),
         (str ''Bcc'', Some (str ''z@z.org'')),
         (str ''Bcc'', Some (str ''a@x.com''))],
      payload = str ''hello''\<rparr>"

text \<open>
  A logger that does not take the keyword \<^verbatim>\<open>file\<close>, as the functions of Python's
  \<^verbatim>\<open>logging\<close> module do not: the call of the \<^verbatim>\<open>except\<close> clause that passes
  \<^verbatim>\<open>file=sys.stderr\<close> (the one-line summary) raises a \<^verbatim>\<open>TypeError\<close>. Every other call
  is answered as the given world answers it.
\<close>

definition keyword_error :: exc where
  "keyword_error = PyError ''TypeError'' ''got an unexpected keyword argument file''"

definition strict_logger :: "(event list \<Rightarrow> exc option) \<Rightarrow> event list \<Rightarrow> exc option" where
  "strict_logger world h =
     (case last h of
        Log (LogSummary x) \<Rightarrow> Some keyword_error
      | _ \<Rightarrow> world h)"

definition strict_refusing_env :: env where
  "strict_refusing_env = refusing_env\<lparr>respond := strict_logger (respond refusing_env)\<rparr>"

definition strict_bouncing_env :: env where
  "strict_bouncing_env = bouncing_env\<lparr>respond := strict_logger (respond bouncing_env)\<rparr>"

section \<open>Properties\<close>

subsection \<open>Test mode\<close>

text \<open>
  C2. With delivery mode \<^verbatim>\<open>'test'\<close>, \<^verbatim>\<open>send\<close> returns what \<^verbatim>\<open>msg.as_string()\<close> returns,
  the serialised message, and leaves the trace as it was: no call to the SMTP client (nor
  to the logger) is made. This holds whatever the host, port, user name and password are.
\<close>

theorem send_test_returns_text:
  assumes "delivery m = Some (str ''test'')"
  shows "send e (m\<lparr>host := hst, port := prt, username := usr, password := pwd\<rparr>) msg h =
           (case as_string e msg of
              Inl x \<Rightarrow> (Inl x, h)
            | Inr s \<Rightarrow> (Inr (ReturnText s), h))"
  using assms by (simp add: send_def)

theorem send_test_returns_text_witness:
  "delivery (demo_mailer\<lparr>delivery := Some (str ''test'')\<rparr>) = Some (str ''test'')
   \<and> send quiet_env
        (demo_mailer\<lparr>delivery := Some (str ''test''), host := Some (str ''no.such.host''),
           port := Some 0, username := None, password := Some []\<rparr>) demo_msg []
     = (Inr (ReturnText (str ''From: me@x.com'' @ [10] @ str ''To: a@x.com'' @ [10, 10]
                         @ str ''hi'')), [])"
  using send_test_returns_text
          [where m = "demo_mailer\<lparr>delivery := Some (str ''test'')\<rparr>" and e = quiet_env
             and hst = "Some (str ''no.such.host'')" and prt = "Some 0" and usr = None
             and pwd = "Some []" and msg = demo_msg and h = "[]"]
  by (simp add: quiet_env_def demo_as_string_def demo_msg_def header_line_def or_str_def
        str_def)

subsection \<open>The transaction follows its script\<close>

lemma perform_append: "perform e (a @ b) h = and_then (perform e a) (perform e b) h"
proof (induction a arbitrary: h)
  case Nil
  show ?case by (simp add: and_then_def)
next
  case (Cons act a)
  show ?case
  proof (cases act)
    case (Do ev)
    then show ?thesis using Cons.IH by (simp add: and_then_def split: option.splits)
  next
    case (Raise x)
    then show ?thesis by (simp add: and_then_def)
  qed
qed

lemma call_perform: "call e ev = perform e [Do ev]"
  by (rule ext) (simp add: call_def split: option.splits)

lemma skip_perform: "skip = perform e []"
  by (rule ext) (simp add: skip_def)

lemma and_then_perform: "and_then (perform e a) (perform e b) = perform e (a @ b)"
  by (rule ext) (simp add: perform_append)

lemma submit_perform:
  "(\<lambda>h. case as_string e msg of
           Inl x \<Rightarrow> (Inl x, h)
         | Inr body \<Rightarrow> call e (Smtp (Sendmail f t body)) h) = perform e [submit e msg f t]"
  by (rule ext) (simp add: submit_def call_perform split: sum.splits)

lemma loop_perform:
  "sendmail_loop e m msg f tos = perform e (loop_script e m msg f tos)"
proof (induction tos)
  case Nil
  show ?case by (simp add: loop_script_def skip_perform [of e])
next
  case (Cons t tos)
  have "loop_script e m msg f (t # tos) =
          (if debug m then [Do (Log (LogTo t))] else []) @ [submit e msg f t]
          @ loop_script e m msg f tos"
    by (simp add: loop_script_def)
  then show ?case
    using Cons.IH
    by (simp add: submit_perform call_perform skip_perform [of e] and_then_perform)
qed

lemma login_perform:
  "(case (username m, password m) of
      (Some u, Some p) \<Rightarrow> call e (Smtp (Login u p))
    | _ \<Rightarrow> skip) = perform e (login_script m)"
  by (simp add: login_script_def call_perform skip_perform [of e] split: option.splits)

lemma session_perform:
  "smtp_session e m msg f tos = perform e (session_script e m msg f tos)"
  unfolding smtp_session_def session_script_def
  apply (subst login_perform)
  apply (simp only: loop_perform call_perform and_then_perform)
  apply simp
  done


lemma perform_extends: "\<exists>n. snd (perform e acts h) = h @ events_of (take n acts)"
proof (induction acts arbitrary: h)
  case Nil
  show ?case by simp
next
  case (Cons act acts)
  show ?case
  proof (cases act)
    case (Raise x)
    then show ?thesis by (intro exI [of _ 0]) simp
  next
    case (Do ev)
    show ?thesis
    proof (cases "respond e (h @ [ev])")
      case (Some x)
      with Do show ?thesis by (intro exI [of _ 1]) simp
    next
      case None
      from Cons.IH [of "h @ [ev]"] obtain n
        where "snd (perform e acts (h @ [ev])) = (h @ [ev]) @ events_of (take n acts)" ..
      with Do None show ?thesis by (intro exI [of _ "Suc n"]) simp
    qed
  qed
qed

lemma perform_failure_last:
  "perform e acts h = (r, h') \<Longrightarrow> h' = h @ pre @ ev # post \<Longrightarrow>
   respond e (h @ pre @ [ev]) = Some x \<Longrightarrow> post = [] \<and> r = Inl x"
proof (induction acts arbitrary: h pre)
  case Nil
  then show ?case by simp
next
  case (Cons act acts)
  show ?case
  proof (cases act)
    case (Raise y)
    with Cons.prems show ?thesis by simp
  next
    case (Do ev0)
    show ?thesis
    proof (cases "respond e (h @ [ev0])")
      case (Some y)
      with Do Cons.prems have "pre @ ev # post = [ev0]" and r: "r = Inl y" by auto
      then have "pre = []" and "ev = ev0" and "post = []"
        by (auto simp: append_eq_Cons_conv)
      with Some Cons.prems r show ?thesis by simp
    next
      case None
      with Do Cons.prems have run: "perform e acts (h @ [ev0]) = (r, h')" by simp
      obtain n where "snd (perform e acts (h @ [ev0])) = (h @ [ev0]) @ events_of (take n acts)"
        using perform_extends by blast
      with run Cons.prems have eq: "pre @ ev # post = ev0 # events_of (take n acts)" by simp
      show ?thesis
      proof (cases pre)
        case Nil
        with eq have "ev = ev0" by simp
        with Nil None Cons.prems show ?thesis by simp
      next
        case (Cons a pre')
        with eq have "a = ev0" by simp
        with Cons Cons.prems have "h' = (h @ [ev0]) @ pre' @ ev # post"
          and "respond e ((h @ [ev0]) @ pre' @ [ev]) = Some x" by simp_all
        with Cons.IH run show ?thesis by blast
      qed
    qed
  qed
qed

lemma perform_success:
  "perform e acts h = (Inr u, h') \<Longrightarrow> h' = h @ events_of acts \<and> (\<forall>x. Raise x \<notin> set acts)"
proof (induction acts arbitrary: h)
  case Nil
  then show ?case by simp
next
  case (Cons act acts)
  show ?case
  proof (cases act)
    case (Raise y)
    with Cons.prems show ?thesis by simp
  next
    case (Do ev)
    with Cons.prems have "perform e acts (h @ [ev]) = (Inr u, h')"
      by (simp split: option.splits)
    from Cons.IH [OF this] Do show ?thesis by simp
  qed
qed

lemma perform_raises:
  "perform e acts h = (Inl x, h') \<Longrightarrow>
     (h' \<noteq> h \<and> respond e h' = Some x) \<or> Raise x \<in> set acts"
proof (induction acts arbitrary: h)
  case Nil
  then show ?case by simp
next
  case (Cons act acts)
  show ?case
  proof (cases act)
    case (Raise y)
    with Cons.prems show ?thesis by simp
  next
    case (Do ev)
    show ?thesis
    proof (cases "respond e (h @ [ev])")
      case (Some y)
      with Do Cons.prems show ?thesis by auto
    next
      case None
      with Do Cons.prems have run: "perform e acts (h @ [ev]) = (Inl x, h')" by simp
      obtain n where "snd (perform e acts (h @ [ev])) = (h @ [ev]) @ events_of (take n acts)"
        using perform_extends by blast
      with run have "h' \<noteq> h" by auto
      with Cons.IH [OF run] show ?thesis by auto
    qed
  qed
qed

subsection \<open>The shape of a run of \<^verbatim>\<open>send\<close> in SMTP mode\<close>

lemma split_after_prefix:
  "xs @ ys = pre @ a # post \<Longrightarrow> a \<notin> set xs \<Longrightarrow> \<exists>pre'. pre = xs @ pre' \<and> ys = pre' @ a # post"
  by (auto simp: append_eq_append_conv2 append_eq_Cons_conv)

lemma split_before_suffix:
  "ys @ zs = pre @ a # post \<Longrightarrow> a \<notin> set zs \<Longrightarrow> \<exists>post'. post = post' @ zs \<and> ys = pre @ a # post'"
  by (auto simp: append_eq_append_conv2 append_eq_Cons_conv Cons_eq_append_conv)

lemma send_smtp_cases:
  assumes smtp: "delivery m = Some (str ''smtp'')"
    and run: "send e m msg h = (r, h')"
  shows "(debug m \<and> h' = h @ from_log m msg \<and> (\<exists>y. respond e h' = Some y \<and> r = Inl y))
       \<or> ((debug m \<longrightarrow> respond e (h @ from_log m msg) = None)
          \<and> perform e (session_script e m msg (get_item (str ''From'') msg) (tolist msg))
               (h @ from_log m msg) = (Inr (), h')
          \<and> r = Inr ReturnNone)
       \<or> ((debug m \<longrightarrow> respond e (h @ from_log m msg) = None)
          \<and> (\<exists>x h2. perform e (session_script e m msg (get_item (str ''From'') msg) (tolist msg))
                       (h @ from_log m msg) = (Inl x, h2)
                \<and> h' = h2 @ [error_log m x]
                \<and> r = (case respond e h' of None \<Rightarrow> Inr (ReturnExc x) | Some y \<Rightarrow> Inl y)))"
proof -
  have ne: "str ''smtp'' \<noteq> str ''test''" by (simp add: str_def)
  show ?thesis
    using run smtp ne
    by (auto simp: send_def session_perform call_def skip_def from_log_def error_log_def Let_def
          split: if_splits option.splits sum.splits prod.splits)
qed


lemma smtp_not_in_from_log: "Smtp c \<notin> set (from_log m msg)"
  by (simp add: from_log_def)

lemma failing_call_in_send:
  assumes smtp: "delivery m = Some (str ''smtp'')"
    and run: "send e m msg h = (r, h')"
    and tr: "h' = h @ pre @ Smtp c # post"
    and raised: "respond e (h @ pre @ [Smtp c]) = Some x"
  shows "post = [error_log m x] \<and>
         r = (case respond e h' of None \<Rightarrow> Inr (ReturnExc x) | Some y \<Rightarrow> Inl y)"
proof -
  let ?l0 = "from_log m msg"
  let ?script = "session_script e m msg (get_item (str ''From'') msg) (tolist msg)"
  from send_smtp_cases [OF smtp run]
  consider (log_raised) "debug m" "h' = h @ ?l0"
    | (returned) "perform e ?script (h @ ?l0) = (Inr (), h')"
    | (caught) x2 h2 where "perform e ?script (h @ ?l0) = (Inl x2, h2)"
        "h' = h2 @ [error_log m x2]"
        "r = (case respond e h' of None \<Rightarrow> Inr (ReturnExc x2) | Some y \<Rightarrow> Inl y)"
    by blast
  then show ?thesis
  proof cases
    case log_raised
    with tr have "pre @ Smtp c # post = [Log (LogFrom (get_item (str ''From'') msg))]"
      by (simp add: from_log_def)
    then have False by (cases pre) auto
    then show ?thesis ..
  next
    case returned
    from perform_success [OF returned] tr
    have "?l0 @ events_of ?script = pre @ Smtp c # post" by simp
    from split_after_prefix [OF this smtp_not_in_from_log]
    obtain pre' where pre: "pre = ?l0 @ pre'" and "events_of ?script = pre' @ Smtp c # post"
      by blast
    with tr have "h' = (h @ ?l0) @ pre' @ Smtp c # post" by simp
    moreover from raised pre have "respond e ((h @ ?l0) @ pre' @ [Smtp c]) = Some x" by simp
    ultimately have "Inr () = (Inl x :: exc + unit)"
      using perform_failure_last [OF returned] by blast
    then show ?thesis by simp
  next
    case caught
    obtain n where "snd (perform e ?script (h @ ?l0)) = (h @ ?l0) @ events_of (take n ?script)"
      using perform_extends by blast
    with caught(1) have h2: "h2 = (h @ ?l0) @ events_of (take n ?script)" by simp
    with caught(2) tr
    have "(?l0 @ events_of (take n ?script)) @ [error_log m x2] = pre @ Smtp c # post" by simp
    from split_before_suffix [OF this]
    obtain post' where post: "post = post' @ [error_log m x2]"
      and "?l0 @ events_of (take n ?script) = pre @ Smtp c # post'"
      by (auto simp: error_log_def)
    from split_after_prefix [OF this(2) smtp_not_in_from_log]
    obtain pre' where pre: "pre = ?l0 @ pre'"
      and "events_of (take n ?script) = pre' @ Smtp c # post'" by blast
    with h2 have "h2 = (h @ ?l0) @ pre' @ Smtp c # post'" by simp
    moreover from raised pre have "respond e ((h @ ?l0) @ pre' @ [Smtp c]) = Some x" by simp
    ultimately have "post' = [] \<and> Inl x2 = (Inl x :: exc + unit)"
      using perform_failure_last [OF caught(1)] by blast
    with post caught(3) show ?thesis by (simp split: option.splits)
  qed
qed

lemma send_raises_only_logger:
  assumes smtp: "delivery m = Some (str ''smtp'')"
    and run: "send e m msg h = (Inl y, h')"
  shows "h' \<noteq> h \<and> (\<exists>l. last h' = Log l) \<and> respond e h' = Some y"
proof -
  let ?l0 = "from_log m msg"
  let ?script = "session_script e m msg (get_item (str ''From'') msg) (tolist msg)"
  from send_smtp_cases [OF smtp run]
  consider (log_raised) "debug m" "h' = h @ ?l0" "respond e h' = Some y"
    | (caught) x2 h2 where "perform e ?script (h @ ?l0) = (Inl x2, h2)"
        "h' = h2 @ [error_log m x2]"
        "Inl y = (case respond e h' of None \<Rightarrow> Inr (ReturnExc x2) | Some y \<Rightarrow> Inl y)"
    by auto
  then show ?thesis
  proof cases
    case log_raised
    then show ?thesis by (simp add: from_log_def)
  next
    case caught
    obtain n where "snd (perform e ?script (h @ ?l0)) = (h @ ?l0) @ events_of (take n ?script)"
      using perform_extends by blast
    with caught(1) have "h2 = (h @ ?l0) @ events_of (take n ?script)" by simp
    with caught(2) have "h' \<noteq> h" by simp
    moreover from caught(2) have "\<exists>l. last h' = Log l" by (simp add: error_log_def)
    moreover from caught(3) have "respond e h' = Some y" by (simp split: option.splits)
    ultimately show ?thesis by simp
  qed
qed

subsection \<open>What happens to a delivery error\<close>

text \<open>
  In SMTP mode, take any call on the SMTP client made by \<^verbatim>\<open>send\<close> (connecting, setting the
  debug level, logging in, a submission, quitting) that raised an error \<open>x\<close>. The only
  thing that happens after it is that \<open>x\<close> is logged, as a trace when \<open>debug\<close> is set and
  as a one-line summary on the error stream otherwise. What \<^verbatim>\<open>send\<close> then does depends on
  that call of the logger: when it returns, \<^verbatim>\<open>send\<close> returns \<open>x\<close>; when it raises,
  \<^verbatim>\<open>send\<close> raises what the logger raised, and \<open>x\<close> is not returned.
\<close>

lemma send_after_failing_call:
  assumes smtp: "delivery m = Some (str ''smtp'')"
    and run: "send e m msg h = (r, h')"
    and tr: "h' = h @ pre @ Smtp c # post"
    and raised: "respond e (h @ pre @ [Smtp c]) = Some x"
  shows "post = [Log (if debug m then LogTrace x else LogSummary x)]
       \<and> (respond e h' = None \<longrightarrow> r = Inr (ReturnExc x))
       \<and> (\<forall>y. respond e h' = Some y \<longrightarrow> r = Inl y)"
proof -
  from failing_call_in_send [OF smtp run tr raised]
  have post: "post = [error_log m x]"
    and r: "r = (case respond e h' of None \<Rightarrow> Inr (ReturnExc x) | Some y \<Rightarrow> Inl y)"
    by simp_all
  from post have "post = [Log (if debug m then LogTrace x else LogSummary x)]"
    by (simp add: error_log_def)
  moreover from r have "respond e h' = None \<longrightarrow> r = Inr (ReturnExc x)" by simp
  moreover from r have "\<forall>y. respond e h' = Some y \<longrightarrow> r = Inl y" by simp
  ultimately show ?thesis by blast
qed

text \<open>With a logger that returns, a refused connection is logged and returned.\<close>

lemma refused_connection_returned:
  "send refusing_env demo_mailer demo_msg [] =
     (Inr (ReturnExc refused),
      [Smtp (Connect (str ''127.0.0.1'') None), Log (LogSummary refused)])"
  by (simp add: send_def smtp_session_def and_then_def call_def skip_def refusing_env_def
        demo_mailer_def TextMailer_def or_str_def str_def)

text \<open>
  C1. The claim is that in SMTP mode an error raised by a step of the delivery transaction
  is caught, logged and returned as the value of \<^verbatim>\<open>send\<close>, and that \<^verbatim>\<open>send\<close> never
  raises; the comment on the last line of the code and its docstring say the same. The code
  does not keep it: the \<^verbatim>\<open>except\<close> clause calls the logger before it returns, and an
  error raised by that call leaves \<^verbatim>\<open>send\<close>. Here no SMTP server listens, \<open>debug\<close> is
  off and the logger does not take the keyword \<^verbatim>\<open>file\<close>: connecting raises
  \<^verbatim>\<open>ConnectionRefusedError\<close>, the summary is handed to the logger, and \<^verbatim>\<open>send\<close> raises
  the logger's \<^verbatim>\<open>TypeError\<close> instead of returning the caught error.
\<close>

theorem send_raises_when_logger_raises:
  "delivery demo_mailer = Some (str ''smtp'')
   \<and> debug demo_mailer = False
   \<and> respond strict_refusing_env [Smtp (Connect (str ''127.0.0.1'') None)] = Some refused
   \<and> send strict_refusing_env demo_mailer demo_msg [] =
       (Inl keyword_error,
        [Smtp (Connect (str ''127.0.0.1'') None), Log (LogSummary refused)])"
  by (simp add: send_def smtp_session_def and_then_def call_def skip_def
        strict_refusing_env_def strict_logger_def refusing_env_def demo_mailer_def
        TextMailer_def or_str_def str_def)

subsection \<open>The submissions of a run\<close>

lemma sendmails_append: "sendmails (xs @ ys) = sendmails xs @ sendmails ys"
  by (induction xs rule: sendmails.induct) simp_all

lemma events_of_append: "events_of (xs @ ys) = events_of xs @ events_of ys"
  by (induction xs rule: events_of.induct) simp_all

lemma sendmails_loop_script:
  "sendmails (events_of (loop_script e m msg f tos)) =
     (case as_string e msg of
        Inl x \<Rightarrow> []
      | Inr body \<Rightarrow> map (\<lambda>a. Sendmail f a body) tos)"
proof (induction tos)
  case Nil
  show ?case by (simp add: loop_script_def split: sum.splits)
next
  case (Cons t tos)
  have "loop_script e m msg f (t # tos) =
          (if debug m then [Do (Log (LogTo t))] else []) @ [submit e msg f t]
          @ loop_script e m msg f tos"
    by (simp add: loop_script_def)
  then show ?case
    using Cons.IH
    by (simp add: submit_def events_of_append sendmails_append split: sum.splits)
qed

lemma sendmails_login_script: "sendmails (events_of (login_script m)) = []"
  by (simp add: login_script_def split: option.splits)

lemma sendmails_session_script:
  "sendmails (events_of (session_script e m msg f tos)) =
     (case as_string e msg of
        Inl x \<Rightarrow> []
      | Inr body \<Rightarrow> map (\<lambda>a. Sendmail f a body) tos)"
  by (simp add: session_script_def events_of_append sendmails_append sendmails_login_script
        sendmails_loop_script)

lemma sendmails_take:
  "sendmails (events_of (take n acts)) =
     take (length (sendmails (events_of (take n acts)))) (sendmails (events_of acts))"
proof -
  have "sendmails (events_of acts) =
          sendmails (events_of (take n acts)) @ sendmails (events_of (drop n acts))"
    by (metis append_take_drop_id events_of_append sendmails_append)
  then show ?thesis by simp
qed

lemma sendmails_from_log: "sendmails (from_log m msg) = []"
  by (simp add: from_log_def)

lemma sendmails_error_log: "sendmails [error_log m x] = []"
  by (simp add: error_log_def)

lemma send_new_events:
  assumes smtp: "delivery m = Some (str ''smtp'')"
    and run: "send e m msg h = (r, h')"
  shows "\<exists>new. h' = h @ new \<and>
           sendmails new =
             take (length (sendmails new))
               (sendmails (events_of
                  (session_script e m msg (get_item (str ''From'') msg) (tolist msg))))"
proof -
  let ?l0 = "from_log m msg"
  let ?script = "session_script e m msg (get_item (str ''From'') msg) (tolist msg)"
  have ext: "\<exists>n. snd (perform e ?script (h @ ?l0)) = (h @ ?l0) @ events_of (take n ?script)"
    by (rule perform_extends)
  from send_smtp_cases [OF smtp run]
  consider (log_raised) "h' = h @ ?l0"
    | (returned) "perform e ?script (h @ ?l0) = (Inr (), h')"
    | (caught) x2 h2 where "perform e ?script (h @ ?l0) = (Inl x2, h2)"
        "h' = h2 @ [error_log m x2]"
    by blast
  then show ?thesis
  proof cases
    case log_raised
    then show ?thesis by (intro exI [of _ ?l0]) (simp add: sendmails_from_log)
  next
    case returned
    with ext obtain n where "h' = h @ (?l0 @ events_of (take n ?script))" by auto
    moreover have "sendmails (?l0 @ events_of (take n ?script)) =
                     sendmails (events_of (take n ?script))"
      by (simp add: sendmails_append sendmails_from_log)
    ultimately show ?thesis
      using sendmails_take [of n ?script] by (intro exI [of _ "?l0 @ events_of (take n ?script)"]) simp
  next
    case caught
    with ext obtain n where "h' = h @ (?l0 @ events_of (take n ?script) @ [error_log m x2])"
      by auto
    moreover have "sendmails (?l0 @ events_of (take n ?script) @ [error_log m x2]) =
                     sendmails (events_of (take n ?script))"
      by (simp add: sendmails_append sendmails_from_log sendmails_error_log)
    ultimately show ?thesis
      using sendmails_take [of n ?script]
      by (intro exI [of _ "?l0 @ events_of (take n ?script) @ [error_log m x2]"]) simp
  qed
qed

subsection \<open>The recipient list\<close>

lemma strip_empty_iff: "strip a = [] \<longleftrightarrow> list_all is_space a"
proof
  assume "strip a = []"
  then have all: "\<forall>c\<in>set (dropWhile is_space a). is_space c"
    by (simp add: strip_def dropWhile_eq_Nil_conv)
  have "dropWhile is_space a = []"
  proof (rule ccontr)
    assume ne: "dropWhile is_space a \<noteq> []"
    then have "\<not> is_space (hd (dropWhile is_space a))" by (rule hd_dropWhile)
    with all ne show False by (simp add: hd_in_set)
  qed
  then show "list_all is_space a" by (simp add: dropWhile_eq_Nil_conv list_all_iff)
next
  assume "list_all is_space a"
  then have "dropWhile is_space a = []" by (simp add: dropWhile_eq_Nil_conv list_all_iff)
  then show "strip a = []" by (simp add: strip_def del: dropWhile_eq_Nil_conv)
qed

lemma get_all_or_nil:
  "(case get_all name msg of None \<Rightarrow> [] | Some vs \<Rightarrow> vs) = header_values name msg"
  by (simp add: get_all_def header_values_def split: list.splits)

lemma tolist_recipients: "tolist msg = recipients msg"
proof -
  have "(\<lambda>addr. case addr of None \<Rightarrow> [] | Some a \<Rightarrow> if strip a \<noteq> [] then [a] else []) =
        (\<lambda>v. case v of None \<Rightarrow> [] | Some a \<Rightarrow> if a = [] \<or> whitespace_only a then [] else [a])"
    by (rule ext) (auto simp: strip_empty_iff whitespace_only_def split: option.splits)
  then show ?thesis by (simp add: tolist_def recipients_def get_all_or_nil)
qed

text \<open>
  C6. The list \<^verbatim>\<open>send\<close> iterates over is the \<^verbatim>\<open>To\<close> values, then the \<^verbatim>\<open>Cc\<close> values,
  then the \<^verbatim>\<open>Bcc\<close> values, without the null, empty and whitespace-only ones. When the
  message is delivered (\<^verbatim>\<open>send\<close> returns \<^verbatim>\<open>None\<close>), the \<^verbatim>\<open>sendmail\<close> calls it made are
  exactly one per entry of that list, in order and with duplicates kept, each with the
  \<^verbatim>\<open>From\<close> value of the message and its serialised text.
\<close>

theorem send_submits_each_recipient_once:
  assumes smtp: "delivery m = Some (str ''smtp'')"
    and run: "send e m msg h = (Inr ReturnNone, h')"
    and body: "as_string e msg = Inr body"
  shows "tolist msg = recipients msg \<and>
         sendmails (drop (length h) h') =
           map (\<lambda>a. Sendmail (get_item (str ''From'') msg) a body) (recipients msg)"
proof -
  let ?l0 = "from_log m msg"
  let ?script = "session_script e m msg (get_item (str ''From'') msg) (tolist msg)"
  from send_smtp_cases [OF smtp run]
  have "perform e ?script (h @ ?l0) = (Inr (), h')"
    by (auto split: option.splits)
  from perform_success [OF this] have "drop (length h) h' = ?l0 @ events_of ?script" by simp
  then have "sendmails (drop (length h) h') =
               map (\<lambda>a. Sendmail (get_item (str ''From'') msg) a body) (tolist msg)"
    using body by (simp add: sendmails_append sendmails_from_log sendmails_session_script)
  then show ?thesis by (simp add: tolist_recipients)
qed

text \<open>
  If a \<^verbatim>\<open>sendmail\<close> call of an SMTP-mode \<^verbatim>\<open>send\<close> raises \<open>x\<close>, no call on the SMTP client
  follows it: the submissions made are those for the first entries of the recipient list
  up to the refused one, one each, and the later entries get none. \<^verbatim>\<open>send\<close> returns \<open>x\<close>
  when the logger's call in the \<^verbatim>\<open>except\<close> clause returns.
\<close>

lemma no_submission_after_refusal:
  assumes smtp: "delivery m = Some (str ''smtp'')"
    and run: "send e m msg h = (r, h')"
    and tr: "h' = h @ pre @ Smtp (Sendmail f t b) # post"
    and raised: "respond e (h @ pre @ [Smtp (Sendmail f t b)]) = Some x"
  shows "(\<forall>ev\<in>set post. \<not> is_smtp ev)
       \<and> sendmails (pre @ [Smtp (Sendmail f t b)]) =
           take (Suc (length (sendmails pre)))
             (map (\<lambda>a. Sendmail (get_item (str ''From'') msg) a b) (tolist msg))
       \<and> (respond e h' = None \<longrightarrow> r = Inr (ReturnExc x))"
proof -
  let ?ev = "Smtp (Sendmail f t b)"
  let ?all = "sendmails (events_of
                (session_script e m msg (get_item (str ''From'') msg) (tolist msg)))"
  from failing_call_in_send [OF smtp run tr raised]
  have post: "post = [error_log m x]"
    and r: "r = (case respond e h' of None \<Rightarrow> Inr (ReturnExc x) | Some y \<Rightarrow> Inl y)"
    by simp_all
  from send_new_events [OF smtp run] tr
  have "sendmails (pre @ ?ev # post) = take (length (sendmails (pre @ ?ev # post))) ?all"
    by auto
  with post have pref: "sendmails (pre @ [?ev]) = take (Suc (length (sendmails pre))) ?all"
    by (simp add: sendmails_append sendmails_error_log)
  have "Sendmail f t b \<in> set (sendmails (pre @ [?ev]))" by (simp add: sendmails_append)
  with pref have "Sendmail f t b \<in> set ?all" by (metis in_set_takeD)
  then have "?all = map (\<lambda>a. Sendmail (get_item (str ''From'') msg) a b) (tolist msg)"
    by (auto simp: sendmails_session_script split: sum.splits)
  with pref post r show ?thesis by (simp add: error_log_def)
qed

subsection \<open>Runs on the concrete inputs\<close>

lemmas eval_defs =
  send_def smtp_session_def and_then_def call_def skip_def tolist_def get_all_def get_item_def
  name_eq_def lower_ascii_def strip_def is_space_def or_str_def str_def demo_as_string_def
  header_line_def demo_mailer_def TextMailer_def Let_def

lemma dup_body: "as_string quiet_env dup_msg = Inr dup_text"
  by (simp add: quiet_env_def dup_msg_def dup_text_def eval_defs)

lemma dup_run: "send quiet_env demo_mailer dup_msg [] =
       (Inr ReturnNone,
        [Smtp (Connect (str ''127.0.0.1'') None), Smtp (SetDebuglevel 0),
         Smtp (Sendmail (Some (str ''me@x.com'')) (str ''a@x.com'') dup_text),
         Smtp (Sendmail (Some (str ''me@x.com'')) (str ''a@x.com'') dup_text),
         Smtp Quit])"
  by (simp add: quiet_env_def dup_msg_def dup_text_def eval_defs)

lemma three_run: "send bouncing_env demo_mailer three_msg [] =
       (Inr (ReturnExc bounced),
        [Smtp (Connect (str ''127.0.0.1'') None), Smtp (SetDebuglevel 0),
         Smtp (Sendmail (Some (str ''me@x.com'')) (str ''a@x.com'') three_text),
         Smtp (Sendmail (Some (str ''me@x.com'')) (str ''b@y.com'') three_text),
         Log (LogSummary bounced)])"
  by (simp add: bouncing_env_def three_msg_def three_text_def eval_defs)

theorem send_submits_each_recipient_once_witness:
  "delivery demo_mailer = Some (str ''smtp'')
   \<and> send quiet_env demo_mailer dup_msg [] =
       (Inr ReturnNone,
        [Smtp (Connect (str ''127.0.0.1'') None), Smtp (SetDebuglevel 0),
         Smtp (Sendmail (Some (str ''me@x.com'')) (str ''a@x.com'') dup_text),
         Smtp (Sendmail (Some (str ''me@x.com'')) (str ''a@x.com'') dup_text),
         Smtp Quit])
   \<and> as_string quiet_env dup_msg = Inr dup_text
   \<and> recipients dup_msg = [str ''a@x.com'', str ''a@x.com'']"
proof -
  have smtp: "delivery demo_mailer = Some (str ''smtp'')"
    by (simp add: demo_mailer_def TextMailer_def)
  have "tolist dup_msg = [str ''a@x.com'', str ''a@x.com'']"
    by (simp add: dup_msg_def eval_defs)
  with send_submits_each_recipient_once [OF smtp dup_run dup_body] smtp dup_run dup_body
  show ?thesis by simp
qed

text \<open>
  C7. The claim is that when \<^verbatim>\<open>sendmail\<close> raises for a recipient, no later recipient is
  submitted and \<^verbatim>\<open>send\<close> returns the caught error. The first half holds, as shown above.
  The second fails by the defect of C1: the \<^verbatim>\<open>except\<close> clause calls the logger before it
  returns. Here the server refuses the second of three recipients and the logger does not
  take the keyword \<^verbatim>\<open>file\<close>: the third recipient is never submitted, and \<^verbatim>\<open>send\<close>
  raises the logger's \<^verbatim>\<open>TypeError\<close> instead of returning the refusal.
\<close>

theorem send_raises_after_refused_recipient:
  "delivery demo_mailer = Some (str ''smtp'')
   \<and> tolist three_msg = [str ''a@x.com'', str ''b@y.com'', str ''c@z.com'']
   \<and> respond strict_bouncing_env
        [Smtp (Connect (str ''127.0.0.1'') None), Smtp (SetDebuglevel 0),
         Smtp (Sendmail (Some (str ''me@x.com'')) (str ''a@x.com'') three_text),
         Smtp (Sendmail (Some (str ''me@x.com'')) (str ''b@y.com'') three_text)]
       = Some bounced
   \<and> send strict_bouncing_env demo_mailer three_msg [] =
       (Inl keyword_error,
        [Smtp (Connect (str ''127.0.0.1'') None), Smtp (SetDebuglevel 0),
         Smtp (Sendmail (Some (str ''me@x.com'')) (str ''a@x.com'') three_text),
         Smtp (Sendmail (Some (str ''me@x.com'')) (str ''b@y.com'') three_text),
         Log (LogSummary bounced)])"
  by (simp add: strict_bouncing_env_def strict_logger_def bouncing_env_def three_msg_def
        three_text_def eval_defs)

subsection \<open>Authentication\<close>

lemma perform_head:
  "\<exists>n. snd (perform e (Do ev # acts) h) = (h @ [ev]) @ events_of (take n acts)"
proof (cases "respond e (h @ [ev])")
  case (Some x)
  then show ?thesis by (intro exI [of _ 0]) simp
next
  case None
  from perform_extends [of e acts "h @ [ev]"] obtain n
    where "snd (perform e acts (h @ [ev])) = (h @ [ev]) @ events_of (take n acts)" ..
  with None show ?thesis by (intro exI [of _ n]) simp
qed

lemma events_of_take_subset: "set (events_of (take n acts)) \<subseteq> set (events_of acts)"
proof -
  have "events_of acts = events_of (take n acts) @ events_of (drop n acts)"
    by (metis append_take_drop_id events_of_append)
  then show ?thesis by auto
qed

lemma no_login_in_loop: "ev \<in> set (events_of (loop_script e m msg f tos)) \<Longrightarrow> \<not> is_login ev"
proof (induction tos)
  case Nil
  then show ?case by (simp add: loop_script_def)
next
  case (Cons t tos)
  have "loop_script e m msg f (t # tos) =
          (if debug m then [Do (Log (LogTo t))] else []) @ [submit e msg f t]
          @ loop_script e m msg f tos"
    by (simp add: loop_script_def)
  with Cons show ?case
    by (auto simp: events_of_append submit_def split: if_splits sum.splits)
qed

lemma no_login_after:
  "ev \<in> set (events_of (take n (loop_script e m msg f tos @ [Do (Smtp Quit)]))) \<Longrightarrow> \<not> is_login ev"
proof -
  assume "ev \<in> set (events_of (take n (loop_script e m msg f tos @ [Do (Smtp Quit)])))"
  with events_of_take_subset
  have "ev \<in> set (events_of (loop_script e m msg f tos @ [Do (Smtp Quit)]))" by blast
  then show ?thesis by (auto simp: events_of_append dest: no_login_in_loop)
qed

lemma events_of_login_script: "events_of (login_script m) = login_calls m"
  by (simp add: login_script_def login_calls_def split: option.splits)

lemma session_after_connecting:
  assumes c1: "respond e (h1 @ [hd (connect_calls m)]) = None"
    and c2: "respond e (h1 @ connect_calls m) = None"
  shows "\<exists>n. snd (perform e (session_script e m msg f tos) h1) =
           h1 @ connect_calls m @ login_calls m
           @ events_of (take n (loop_script e m msg f tos @ [Do (Smtp Quit)]))"
proof -
  let ?rest = "loop_script e m msg f tos @ [Do (Smtp Quit)]"
  have run: "perform e (session_script e m msg f tos) h1 =
          perform e (login_script m @ ?rest) (h1 @ connect_calls m)"
    using c1 c2 by (simp add: session_script_def connect_calls_def)
  show ?thesis
  proof (cases "login_script m")
    case Nil
    then have "login_calls m = []" using events_of_login_script [of m] by simp
    moreover obtain n where "snd (perform e ?rest (h1 @ connect_calls m)) =
        (h1 @ connect_calls m) @ events_of (take n ?rest)"
      using perform_extends by blast
    ultimately show ?thesis using run Nil by (intro exI [of _ n]) simp
  next
    case (Cons a acts)
    then have a: "login_script m = [Do (Smtp (Login (the (username m)) (the (password m))))]"
      by (auto simp: login_script_def split: option.splits)
    then have lc: "login_calls m = [Smtp (Login (the (username m)) (the (password m)))]"
      using events_of_login_script [of m] by simp
    obtain n where "snd (perform e (Do (Smtp (Login (the (username m)) (the (password m)))) # ?rest)
                      (h1 @ connect_calls m)) =
        ((h1 @ connect_calls m) @ [Smtp (Login (the (username m)) (the (password m)))])
        @ events_of (take n ?rest)"
      using perform_head by blast
    with run a lc show ?thesis by (intro exI [of _ n]) simp
  qed
qed

lemma login_only_from_credentials:
  assumes "ev \<in> set (events_of (session_script e m msg f tos))" and "is_login ev"
  shows "ev \<in> set (login_calls m)"
  using assms
  by (auto simp: session_script_def events_of_append events_of_login_script
        dest: no_login_in_loop)

lemma no_login_in_logs: "ev \<in> set (from_log m msg) \<Longrightarrow> \<not> is_login ev"
  "\<not> is_login (error_log m x)"
  by (auto simp: from_log_def error_log_def split: if_splits)

lemma send_trace_shape:
  assumes smtp: "delivery m = Some (str ''smtp'')"
  shows "\<exists>n tail. snd (send e m msg h) =
           h @ from_log m msg
           @ events_of (take n (session_script e m msg (get_item (str ''From'') msg) (tolist msg)))
           @ tail \<and> (tail = [] \<or> (\<exists>x. tail = [error_log m x]))"
proof -
  let ?l0 = "from_log m msg"
  let ?script = "session_script e m msg (get_item (str ''From'') msg) (tolist msg)"
  obtain r h' where run: "send e m msg h = (r, h')" by (cases "send e m msg h")
  obtain n where ext: "snd (perform e ?script (h @ ?l0)) = (h @ ?l0) @ events_of (take n ?script)"
    using perform_extends by blast
  from send_smtp_cases [OF smtp run]
  consider (log_raised) "h' = h @ ?l0"
    | (returned) "perform e ?script (h @ ?l0) = (Inr (), h')"
    | (caught) x2 h2 where "perform e ?script (h @ ?l0) = (Inl x2, h2)"
        "h' = h2 @ [error_log m x2]"
    by blast
  then show ?thesis
  proof cases
    case log_raised
    with run show ?thesis by (intro exI [of _ 0] exI [of _ "[]"]) simp
  next
    case returned
    with run ext show ?thesis by (intro exI [of _ n] exI [of _ "[]"]) simp
  next
    case caught
    with run ext show ?thesis by (intro exI [of _ n] exI [of _ "[error_log m x2]"]) auto
  qed
qed

lemma send_trace_of_session:
  assumes smtp: "delivery m = Some (str ''smtp'')"
    and quiet: "debug m \<longrightarrow> respond e (h @ from_log m msg) = None"
  shows "\<exists>tail. snd (send e m msg h) =
           snd (perform e (session_script e m msg (get_item (str ''From'') msg) (tolist msg))
                  (h @ from_log m msg)) @ tail
           \<and> (tail = [] \<or> (\<exists>x. tail = [error_log m x]))"
proof -
  obtain r h' where run: "send e m msg h = (r, h')" by (cases "send e m msg h")
  from send_smtp_cases [OF smtp run] quiet run show ?thesis by auto
qed

text \<open>
  C8. In SMTP mode, when the user name or the password is \<^verbatim>\<open>None\<close>, \<^verbatim>\<open>send\<close> makes no
  \<^verbatim>\<open>login\<close> call at all. When the connection is opened (the logger, the connection and
  \<^verbatim>\<open>set_debuglevel\<close> return), the trace continues with exactly one \<^verbatim>\<open>login\<close> call with
  the two credentials if both are given and with none otherwise, and everything else, every
  submission included, comes after it.
\<close>

theorem login_iff_both_credentials:
  assumes smtp: "delivery m = Some (str ''smtp'')"
  shows "((username m = None \<or> password m = None) \<longrightarrow>
            (\<forall>ev\<in>set (drop (length h) (snd (send e m msg h))). \<not> is_login ev))
       \<and> ((debug m \<longrightarrow> respond e (h @ from_log m msg) = None)
            \<and> respond e (h @ from_log m msg @ [hd (connect_calls m)]) = None
            \<and> respond e (h @ from_log m msg @ connect_calls m) = None \<longrightarrow>
          (\<exists>rest. snd (send e m msg h) =
                     h @ from_log m msg @ connect_calls m
                     @ (case (username m, password m) of
                          (Some u, Some p) \<Rightarrow> [Smtp (Login u p)]
                        | _ \<Rightarrow> [])
                     @ rest
                 \<and> (\<forall>ev\<in>set rest. \<not> is_login ev)
                 \<and> sendmails (drop (length h) (snd (send e m msg h))) = sendmails rest))"
proof (intro conjI impI)
  let ?script = "session_script e m msg (get_item (str ''From'') msg) (tolist msg)"
  assume "username m = None \<or> password m = None"
  then have none: "login_calls m = []" by (auto simp: login_calls_def split: option.splits)
  from send_trace_shape [OF smtp, of e msg h] obtain n tail
    where tr: "snd (send e m msg h) = h @ from_log m msg @ events_of (take n ?script) @ tail"
      and tail: "tail = [] \<or> (\<exists>x. tail = [error_log m x])" by blast
  show "\<forall>ev\<in>set (drop (length h) (snd (send e m msg h))). \<not> is_login ev"
  proof
    fix ev assume "ev \<in> set (drop (length h) (snd (send e m msg h)))"
    with tr have "ev \<in> set (from_log m msg) \<or> ev \<in> set (events_of (take n ?script))
                  \<or> ev \<in> set tail" by auto
    then show "\<not> is_login ev"
    proof (elim disjE)
      assume "ev \<in> set (from_log m msg)"
      then show ?thesis by (rule no_login_in_logs)
    next
      assume "ev \<in> set (events_of (take n ?script))"
      with events_of_take_subset have "ev \<in> set (events_of ?script)" by blast
      with login_only_from_credentials none show ?thesis by fastforce
    next
      assume "ev \<in> set tail"
      with tail show ?thesis by (auto simp: no_login_in_logs)
    qed
  qed
next
  let ?script = "session_script e m msg (get_item (str ''From'') msg) (tolist msg)"
  let ?h1 = "h @ from_log m msg"
  let ?loop = "loop_script e m msg (get_item (str ''From'') msg) (tolist msg) @ [Do (Smtp Quit)]"
  assume opened: "(debug m \<longrightarrow> respond e (h @ from_log m msg) = None)
            \<and> respond e (h @ from_log m msg @ [hd (connect_calls m)]) = None
            \<and> respond e (h @ from_log m msg @ connect_calls m) = None"
  then have c1: "respond e (?h1 @ [hd (connect_calls m)]) = None"
    and c2: "respond e (?h1 @ connect_calls m) = None" by simp_all
  from session_after_connecting [OF c1 c2] obtain n
    where sess: "snd (perform e ?script ?h1) =
             ?h1 @ connect_calls m @ login_calls m @ events_of (take n ?loop)" by blast
  from send_trace_of_session [OF smtp] opened obtain tail
    where tr: "snd (send e m msg h) = snd (perform e ?script ?h1) @ tail"
      and tail: "tail = [] \<or> (\<exists>x. tail = [error_log m x])" by blast
  let ?rest = "events_of (take n ?loop) @ tail"
  have shape: "snd (send e m msg h) =
          h @ from_log m msg @ connect_calls m
          @ (case (username m, password m) of
               (Some u, Some p) \<Rightarrow> [Smtp (Login u p)]
             | _ \<Rightarrow> [])
          @ ?rest"
    using tr sess by (simp add: login_calls_def)
  have nolog: "\<forall>ev\<in>set ?rest. \<not> is_login ev"
  proof
    fix ev assume "ev \<in> set ?rest"
    then have "ev \<in> set (events_of (take n ?loop)) \<or> ev \<in> set tail" by simp
    then show "\<not> is_login ev"
    proof
      assume "ev \<in> set (events_of (take n ?loop))"
      then show ?thesis by (rule no_login_after)
    next
      assume "ev \<in> set tail"
      with tail show ?thesis by (auto simp: no_login_in_logs)
    qed
  qed
  have "sendmails (login_calls m) = []"
    by (simp add: login_calls_def split: option.splits)
  then have "sendmails (drop (length h) (snd (send e m msg h))) = sendmails ?rest"
    using tr sess
    by (simp add: sendmails_append sendmails_from_log connect_calls_def)
  with shape nolog
  show "\<exists>rest. snd (send e m msg h) =
                     h @ from_log m msg @ connect_calls m
                     @ (case (username m, password m) of
                          (Some u, Some p) \<Rightarrow> [Smtp (Login u p)]
                        | _ \<Rightarrow> [])
                     @ rest
                 \<and> (\<forall>ev\<in>set rest. \<not> is_login ev)
                 \<and> sendmails (drop (length h) (snd (send e m msg h))) = sendmails rest"
    by blast
qed

lemma auth_run:
  "snd (send quiet_env auth_mailer dup_msg []) =
     [Log (LogFrom (Some (str ''me@x.com''))),
      Smtp (Connect (str ''127.0.0.1'') None), Smtp (SetDebuglevel 1),
      Smtp (Login (str ''user'') (str ''secret'')),
      Log (LogTo (str ''a@x.com'')),
      Smtp (Sendmail (Some (str ''me@x.com'')) (str ''a@x.com'') dup_text),
      Log (LogTo (str ''a@x.com'')),
      Smtp (Sendmail (Some (str ''me@x.com'')) (str ''a@x.com'') dup_text),
      Smtp Quit]"
  by (simp add: auth_mailer_def quiet_env_def dup_msg_def dup_text_def eval_defs)

lemma half_auth_run:
  "snd (send quiet_env half_auth_mailer dup_msg []) =
     [Smtp (Connect (str ''127.0.0.1'') None), Smtp (SetDebuglevel 0),
      Smtp (Sendmail (Some (str ''me@x.com'')) (str ''a@x.com'') dup_text),
      Smtp (Sendmail (Some (str ''me@x.com'')) (str ''a@x.com'') dup_text),
      Smtp Quit]"
  by (simp add: half_auth_mailer_def quiet_env_def dup_msg_def dup_text_def eval_defs)

theorem login_iff_both_credentials_witness:
  "delivery auth_mailer = Some (str ''smtp'')
   \<and> debug auth_mailer
   \<and> respond quiet_env ([] @ from_log auth_mailer dup_msg) = None
   \<and> respond quiet_env ([] @ from_log auth_mailer dup_msg @ [hd (connect_calls auth_mailer)]) = None
   \<and> respond quiet_env ([] @ from_log auth_mailer dup_msg @ connect_calls auth_mailer) = None
   \<and> (username auth_mailer, password auth_mailer) = (Some (str ''user''), Some (str ''secret''))
   \<and> snd (send quiet_env auth_mailer dup_msg []) =
       [] @ [Log (LogFrom (Some (str ''me@x.com'')))]
       @ [Smtp (Connect (str ''127.0.0.1'') None), Smtp (SetDebuglevel 1)]
       @ [Smtp (Login (str ''user'') (str ''secret''))]
       @ [Log (LogTo (str ''a@x.com'')),
          Smtp (Sendmail (Some (str ''me@x.com'')) (str ''a@x.com'') dup_text),
          Log (LogTo (str ''a@x.com'')),
          Smtp (Sendmail (Some (str ''me@x.com'')) (str ''a@x.com'') dup_text),
          Smtp Quit]
   \<and> delivery half_auth_mailer = Some (str ''smtp'')
   \<and> (username half_auth_mailer = None \<or> password half_auth_mailer = None)
   \<and> list_all (\<lambda>ev. \<not> is_login ev)
         (drop (length ([] :: event list)) (snd (send quiet_env half_auth_mailer dup_msg [])))"
proof -
  have smtp: "delivery auth_mailer = Some (str ''smtp'')"
    by (simp add: auth_mailer_def demo_mailer_def TextMailer_def)
  have smtp2: "delivery half_auth_mailer = Some (str ''smtp'')"
    by (simp add: half_auth_mailer_def demo_mailer_def TextMailer_def)
  have quiet: "\<And>h. respond quiet_env h = None" by (simp add: quiet_env_def)
  have creds: "(username auth_mailer, password auth_mailer) =
                 (Some (str ''user''), Some (str ''secret''))"
    by (simp add: auth_mailer_def)
  have half: "username half_auth_mailer = None \<or> password half_auth_mailer = None"
    by (simp add: half_auth_mailer_def demo_mailer_def TextMailer_def)
  have dbg: "debug auth_mailer" by (simp add: auth_mailer_def)
  from login_iff_both_credentials [OF smtp, where e = quiet_env and msg = dup_msg and h = "[]"]
    login_iff_both_credentials [OF smtp2, where e = quiet_env and msg = dup_msg and h = "[]"]
    smtp smtp2 quiet creds half dbg auth_run half_auth_run
  show ?thesis by (simp add: list_all_iff)
qed

subsection \<open>Rendering\<close>

lemma render_object:
  "render m (TObj cls r g) c =
     (case (case template_render (TObj cls r g) c of
              Inl e \<Rightarrow> template_generate (TObj cls r g) c
            | Inr v \<Rightarrow> Inr v) of
        Inl e \<Rightarrow> Inl e
      | Inr v \<Rightarrow> normalize v)"
  by (simp add: render_def normalize_def split: sum.splits pyval.splits)

text \<open>
  C9. When the \<^verbatim>\<open>render\<close> of a template object raises (an unsupported-operation signal such
  as the \<^verbatim>\<open>AttributeError\<close> of a missing method, or anything else) and its \<^verbatim>\<open>generate\<close>
  returns \<open>v\<close>, the mailer's \<^verbatim>\<open>render\<close> returns \<open>v\<close>: decoded as UTF-8 when \<open>v\<close> is bytes
  (raising \<^verbatim>\<open>UnicodeDecodeError\<close> when the bytes are not UTF-8), unchanged otherwise.
\<close>

theorem render_falls_back_to_generate:
  assumes "template_render (TObj cls r g) c = Inl x"
    and "template_generate (TObj cls r g) c = Inr v"
  shows "render m (TObj cls r g) c =
           (case v of
              PBytes b \<Rightarrow> (case decode_utf8 b of Inl e \<Rightarrow> Inl e | Inr s \<Rightarrow> Inr (PStr s))
            | _ \<Rightarrow> Inr v)"
  using assms by (simp add: render_object normalize_def)

theorem render_falls_back_to_generate_witness:
  "template_render stream_template [] = Inl (AttributeError ''Template'' ''render'')
   \<and> template_generate stream_template [] = Inr (PBytes [0x48, 0x69, 0x20, 0xC3, 0xA9])
   \<and> render demo_mailer stream_template [] = Inr (PStr [72, 105, 32, 233])
   \<and> template_render broken_template [] = Inl key_error
   \<and> template_generate broken_template [] = Inr (PStr (str ''Dear customer''))
   \<and> render demo_mailer broken_template [] = Inr (PStr (str ''Dear customer''))"
proof -
  have r1: "template_render stream_template [] = Inl (AttributeError ''Template'' ''render'')"
    by (simp add: stream_template_def)
  have g1: "template_generate stream_template [] = Inr (PBytes [0x48, 0x69, 0x20, 0xC3, 0xA9])"
    by (simp add: stream_template_def)
  have r2: "template_render broken_template [] = Inl key_error"
    by (simp add: broken_template_def)
  have g2: "template_generate broken_template [] = Inr (PStr (str ''Dear customer''))"
    by (simp add: broken_template_def)
  have d: "decode_utf8 [0x48, 0x69, 0x20, 0xC3, 0xA9] = Inr [72, 105, 32, 233]"
    by (simp add: decode_utf8_def is_cont_def)
  from render_falls_back_to_generate [OF r1 [unfolded stream_template_def] g1 [unfolded stream_template_def], of demo_mailer]
    render_falls_back_to_generate [OF r2 [unfolded broken_template_def] g2 [unfolded broken_template_def], of demo_mailer]
    r1 g1 r2 g2 d
  show ?thesis by (simp add: stream_template_def broken_template_def)
qed

text \<open>
  C3, as stated, fails: a template whose \<^verbatim>\<open>render\<close> raises a \<^verbatim>\<open>KeyError\<close> (not an
  unsupported-operation signal) and whose \<^verbatim>\<open>generate\<close> returns a text. The mailer's
  \<^verbatim>\<open>render\<close> does not propagate the \<^verbatim>\<open>KeyError\<close>; it returns the text of \<^verbatim>\<open>generate\<close>.
\<close>

theorem render_error_not_propagated_counterexample:
  "template_render broken_template [] = Inl key_error
   \<and> exc_class key_error \<noteq> ''AttributeError''
   \<and> render demo_mailer broken_template [] = Inr (PStr (str ''Dear customer''))
   \<and> render demo_mailer broken_template [] \<noteq> Inl key_error"
  by (simp add: broken_template_def key_error_def render_object normalize_def)

text \<open>
  C3, amended. Whatever the \<^verbatim>\<open>render\<close> of a template object raises, the mailer's
  \<^verbatim>\<open>render\<close> catches it and calls \<^verbatim>\<open>generate\<close>: the caller gets the outcome of \<^verbatim>\<open>generate\<close>
  (its value, decoded when it is bytes, or its own failure), never the failure of
  \<^verbatim>\<open>render\<close>.
\<close>

theorem render_catches_every_render_failure:
  assumes "template_render (TObj cls r g) c = Inl x"
  shows "render m (TObj cls r g) c =
           (case template_generate (TObj cls r g) c of
              Inl y \<Rightarrow> Inl y
            | Inr v \<Rightarrow>
                (case v of
                   PBytes b \<Rightarrow> (case decode_utf8 b of Inl e \<Rightarrow> Inl e | Inr s \<Rightarrow> Inr (PStr s))
                 | _ \<Rightarrow> Inr v))"
  using assms by (simp add: render_object normalize_def split: sum.splits)

theorem render_catches_every_render_failure_witness:
  "template_render render_only_template [] = Inl key_error
   \<and> render demo_mailer render_only_template [] = Inl (AttributeError ''Greeting'' ''generate'')"
proof -
  have r: "template_render (TObj ''Greeting'' (Some (\<lambda>c. Inl key_error)) None) [] = Inl key_error"
    by simp
  from render_catches_every_render_failure [OF r, of demo_mailer] r
  show ?thesis by (simp add: render_only_template_def)
qed

text \<open>
  C4, amended. For a mailer built without a template path, \<^verbatim>\<open>render\<close> with a template
  given as a name fails with an \<^verbatim>\<open>AttributeError\<close>: the name is not resolved, the string
  itself is used as the template, the failure of its missing \<^verbatim>\<open>render\<close> is caught and its
  missing \<^verbatim>\<open>generate\<close> raises.
\<close>

theorem render_name_without_loader:
  "render (TextMailer loader_class None h p fa ta d u pw dbg) (TStr name) c =
     Inl (AttributeError ''str'' ''generate'')"
  by (simp add: render_def TextMailer_def)

text \<open>
  C4, as stated, fails: the error raised is an \<^verbatim>\<open>AttributeError\<close>, not a configuration
  error; the code has no such error class.
\<close>

theorem render_name_without_loader_counterexample:
  "template_path demo_mailer = None
   \<and> loader demo_mailer = None
   \<and> render demo_mailer (TStr (str ''welcome.txt'')) [] = Inl (AttributeError ''str'' ''generate'')
   \<and> exc_class (AttributeError ''str'' ''generate'') \<noteq> ''ConfigurationError''"
  by (simp add: render_def demo_mailer_def TextMailer_def)

subsection \<open>The address headers of a built message\<close>

lemma code_tokens: "map strip (filter (\<lambda>addr. strip addr \<noteq> []) xs) = filter (\<lambda>t. t \<noteq> []) (map strip xs)"
  by (induction xs) simp_all

lemma header_values_set_item:
  "header_values name (set_item k v msg) =
     header_values name msg @ (if name_eq k name then [v] else [])"
  by (simp add: header_values_def set_item_def)

lemma header_values_add_header:
  "header_values name (add_header k v msg) =
     header_values name msg @ (if name_eq k name then [Some v] else [])"
  by (simp add: header_values_def add_header_def)

lemma header_values_fold:
  "header_values name (fold (\<lambda>addr. add_header k (strip addr)) xs msg) =
     header_values name msg @ (if name_eq k name then map Some (map strip xs) else [])"
  by (induction xs arbitrary: msg) (simp_all add: header_values_add_header)

lemma header_values_add_addrs:
  "header_values name (add_addrs k s msg) =
     header_values name msg @ (if name_eq k name then map Some (tokens s) else [])"
  by (simp add: add_addrs_def header_values_fold code_tokens tokens_def)

lemma header_values_MIMEText:
  assumes "MIMEText tx = Inr msg"
  shows "header_values (str ''To'') msg = []" and "header_values (str ''Cc'') msg = []"
    and "header_values (str ''Bcc'') msg = []"
  using assms
  by (cases tx; auto simp: header_values_def mime_headers_def name_eq_def lower_ascii_def str_def)+

lemma name_eq_address_headers:
  "name_eq (str ''To'') (str ''To'')" "name_eq (str ''Cc'') (str ''Cc'')"
  "name_eq (str ''Bcc'') (str ''Bcc'')"
  "\<not> name_eq (str ''From'') (str ''To'')" "\<not> name_eq (str ''From'') (str ''Cc'')"
  "\<not> name_eq (str ''From'') (str ''Bcc'')"
  "\<not> name_eq (str ''Subject'') (str ''To'')" "\<not> name_eq (str ''Subject'') (str ''Cc'')"
  "\<not> name_eq (str ''Subject'') (str ''Bcc'')"
  "\<not> name_eq (str ''To'') (str ''Cc'')" "\<not> name_eq (str ''To'') (str ''Bcc'')"
  "\<not> name_eq (str ''Cc'') (str ''To'')" "\<not> name_eq (str ''Cc'') (str ''Bcc'')"
  "\<not> name_eq (str ''Bcc'') (str ''To'')" "\<not> name_eq (str ''Bcc'') (str ''Cc'')"
  by (simp_all add: name_eq_def lower_ascii_def str_def)

lemma message_headers:
  assumes "message m a = Inr msg"
  shows "header_values (str ''To'') msg =
           map Some (tokens (or_str (py_or (to_addr a) (to_address m)) []))"
    and "header_values (str ''Cc'') msg = map Some (tokens (or_str (cc a) []))"
    and "header_values (str ''Bcc'') msg = map Some (tokens (or_str (bcc a) []))"
proof -
  from assms obtain tx msg0 where m0: "MIMEText tx = Inr msg0"
    and msg: "msg = add_addrs (str ''Bcc'') (or_str (bcc a) [])
                   (add_addrs (str ''Cc'') (or_str (cc a) [])
                   (add_addrs (str ''To'') (or_str (py_or (to_addr a) (to_address m)) [])
                   (set_item (str ''Subject'') (subject a)
                   (set_item (str ''From'') (py_or (from_addr a) (from_address m)) msg0))))"
    by (auto simp: message_def split: sum.splits)
  show "header_values (str ''To'') msg =
           map Some (tokens (or_str (py_or (to_addr a) (to_address m)) []))"
    by (simp add: msg header_values_add_addrs header_values_set_item name_eq_address_headers
          header_values_MIMEText [OF m0])
  show "header_values (str ''Cc'') msg = map Some (tokens (or_str (cc a) []))"
    by (simp add: msg header_values_add_addrs header_values_set_item name_eq_address_headers
          header_values_MIMEText [OF m0])
  show "header_values (str ''Bcc'') msg = map Some (tokens (or_str (bcc a) []))"
    by (simp add: msg header_values_add_addrs header_values_set_item name_eq_address_headers
          header_values_MIMEText [OF m0])
qed

lemma tokens_empty: "tokens [] = []"
  by (simp add: tokens_def strip_def)

lemma tokens_blank: "list_all whitespace_only (split_comma s) \<Longrightarrow> tokens s = []"
proof -
  assume "list_all whitespace_only (split_comma s)"
  then have "\<forall>t\<in>set (split_comma s). strip t = []"
    by (simp add: list_all_iff whitespace_only_def strip_empty_iff)
  then show ?thesis by (simp add: tokens_def filter_empty_conv)
qed

lemma or_str_nil: "or_str (Some s) [] = s"
  by (simp add: or_str_def)

lemmas msg_eval_defs =
  message_def add_addrs_def add_header_def set_item_def mime_headers_def is_ascii_def
  py_or_def opt_val_def split_comma.simps comma_def header_values_def tokens_def

text \<open>
  C5, amended. In the message that \<^verbatim>\<open>message\<close> builds, the \<^verbatim>\<open>Cc\<close> and \<^verbatim>\<open>Bcc\<close> headers are
  the trimmed non-empty tokens of the string given, one header each, in order; so are the
  \<^verbatim>\<open>To\<close> headers when the string given is not empty (or the mailer has no non-empty default
  to-address). A string whose tokens are all empty or whitespace-only has no tokens, hence
  gives no header.
\<close>

theorem message_address_headers:
  assumes "message m a = Inr msg"
  shows "(\<forall>s. cc a = Some s \<longrightarrow> header_values (str ''Cc'') msg = map Some (tokens s))
       \<and> (\<forall>s. bcc a = Some s \<longrightarrow> header_values (str ''Bcc'') msg = map Some (tokens s))
       \<and> (\<forall>s. to_addr a = Some s \<and> (s \<noteq> [] \<or> \<not> truthy (to_address m)) \<longrightarrow>
                header_values (str ''To'') msg = map Some (tokens s))
       \<and> (\<forall>s. list_all whitespace_only (split_comma s) \<longrightarrow> tokens s = [])"
proof (intro conjI allI impI)
  fix s assume "cc a = Some s"
  with message_headers(2) [OF assms] show "header_values (str ''Cc'') msg = map Some (tokens s)"
    by (simp add: or_str_nil)
next
  fix s assume "bcc a = Some s"
  with message_headers(3) [OF assms] show "header_values (str ''Bcc'') msg = map Some (tokens s)"
    by (simp add: or_str_nil)
next
  fix s assume "to_addr a = Some s \<and> (s \<noteq> [] \<or> \<not> truthy (to_address m))"
  then have "or_str (py_or (to_addr a) (to_address m)) [] = s"
    by (cases "to_address m") (auto simp: py_or_def or_str_def)
  with message_headers(1) [OF assms] show "header_values (str ''To'') msg = map Some (tokens s)"
    by simp
next
  fix s assume "list_all whitespace_only (split_comma s)"
  then show "tokens s = []" by (rule tokens_blank)
qed

lemma hello_built: "message demo_mailer hello_args = Inr hello_msg"
  by (simp add: hello_args_def hello_msg_def msg_eval_defs eval_defs)

lemma default_built: "message demo_mailer (hello_args\<lparr>to_addr := Some []\<rparr>) = Inr default_msg"
  by (simp add: hello_args_def default_msg_def msg_eval_defs eval_defs)

theorem message_address_headers_witness:
  "message demo_mailer hello_args = Inr hello_msg
   \<and> to_addr hello_args = Some (str '' a@x.com ,, b@y.com , '')
   \<and> str '' a@x.com ,, b@y.com , '' \<noteq> []
   \<and> tokens (str '' a@x.com ,, b@y.com , '') = [str ''a@x.com'', str ''b@y.com'']
   \<and> header_values (str ''To'') hello_msg = [Some (str ''a@x.com''), Some (str ''b@y.com'')]
   \<and> cc hello_args = Some (str '' , '')
   \<and> list_all whitespace_only (split_comma (str '' , ''))
   \<and> header_values (str ''Cc'') hello_msg = []
   \<and> bcc hello_args = Some (str ''z@z.org, a@x.com'')
   \<and> header_values (str ''Bcc'') hello_msg = [Some (str ''z@z.org''), Some (str ''a@x.com'')]"
proof -
  have t1: "tokens (str '' a@x.com ,, b@y.com , '') = [str ''a@x.com'', str ''b@y.com'']"
    by (simp add: msg_eval_defs eval_defs)
  have t2: "list_all whitespace_only (split_comma (str '' , ''))"
    by (simp add: whitespace_only_def msg_eval_defs eval_defs)
  have t3: "tokens (str ''z@z.org, a@x.com'') = [str ''z@z.org'', str ''a@x.com'']"
    by (simp add: msg_eval_defs eval_defs)
  have args: "to_addr hello_args = Some (str '' a@x.com ,, b@y.com , '')"
    "cc hello_args = Some (str '' , '')" "bcc hello_args = Some (str ''z@z.org, a@x.com'')"
    by (simp_all add: hello_args_def)
  have ne: "str '' a@x.com ,, b@y.com , '' \<noteq> []" by (simp add: str_def)
  from message_address_headers [OF hello_built] hello_built t1 t2 t3 args ne
  show ?thesis by simp
qed

text \<open>
  C5, as stated, fails for \<^verbatim>\<open>To\<close>: the empty string has no non-empty token, yet with a
  default to-address configured the message gets a \<^verbatim>\<open>To\<close> header (the default).
\<close>

theorem message_address_headers_counterexample:
  "to_addr (hello_args\<lparr>to_addr := Some []\<rparr>) = Some []
   \<and> tokens [] = []
   \<and> message demo_mailer (hello_args\<lparr>to_addr := Some []\<rparr>) = Inr default_msg
   \<and> header_values (str ''To'') default_msg = [Some (str ''default@x.com'')]"
  using default_built
  by (simp add: tokens_empty default_msg_def header_values_def name_eq_def lower_ascii_def
        str_def)

text \<open>
  C10. With a non-empty default to-address, \<^verbatim>\<open>message\<close> with \<^verbatim>\<open>to_addr=''\<close> does what it
  does with \<^verbatim>\<open>to_addr=None\<close> (the same message, or the same failure), and the \<^verbatim>\<open>To\<close>
  headers of the message are the tokens of the default to-address.
\<close>

theorem empty_to_addr_means_default:
  assumes "to_address m = Some d" and "d \<noteq> []"
  shows "message m (a\<lparr>to_addr := Some []\<rparr>) = message m (a\<lparr>to_addr := None\<rparr>)
       \<and> (\<forall>msg. message m (a\<lparr>to_addr := Some []\<rparr>) = Inr msg \<longrightarrow>
                  header_values (str ''To'') msg = map Some (tokens d))"
proof
  show "message m (a\<lparr>to_addr := Some []\<rparr>) = message m (a\<lparr>to_addr := None\<rparr>)"
    by (simp add: message_def py_or_def cong: option.case_cong sum.case_cong)
next
  show "\<forall>msg. message m (a\<lparr>to_addr := Some []\<rparr>) = Inr msg \<longrightarrow>
                  header_values (str ''To'') msg = map Some (tokens d)"
  proof (intro allI impI)
    fix msg assume "message m (a\<lparr>to_addr := Some []\<rparr>) = Inr msg"
    from message_headers(1) [OF this] assms
    show "header_values (str ''To'') msg = map Some (tokens d)"
      by (simp add: py_or_def or_str_def)
  qed
qed

theorem empty_to_addr_means_default_witness:
  "to_address demo_mailer = Some (str ''default@x.com'')
   \<and> str ''default@x.com'' \<noteq> []
   \<and> message demo_mailer (hello_args\<lparr>to_addr := Some []\<rparr>) = Inr default_msg
   \<and> message demo_mailer (hello_args\<lparr>to_addr := None\<rparr>) = Inr default_msg
   \<and> header_values (str ''To'') default_msg = map Some (tokens (str ''default@x.com''))
   \<and> tokens (str ''default@x.com'') = [str ''default@x.com'']"
proof -
  have d: "to_address demo_mailer = Some (str ''default@x.com'')"
    by (simp add: demo_mailer_def TextMailer_def)
  have ne: "str ''default@x.com'' \<noteq> []" by (simp add: str_def)
  have t: "tokens (str ''default@x.com'') = [str ''default@x.com'']"
    by (simp add: msg_eval_defs eval_defs)
  from empty_to_addr_means_default [OF d ne, of hello_args] default_built d ne t
  show ?thesis by simp
qed

subsection \<open>The UTF-8 decoder inverts the encoder\<close>

lemma utf8_points_two:
  "194 \<le> b0 \<Longrightarrow> b0 \<le> 223 \<Longrightarrow> is_cont b1 \<Longrightarrow>
   utf8_points (b0 # b1 # bs) = map_option ((#) ((b0 - 192) * 64 + (b1 - 128))) (utf8_points bs)"
  by simp

lemma utf8_points_three:
  "224 \<le> b0 \<Longrightarrow> b0 \<le> 239 \<Longrightarrow> (if b0 = 224 then 160 else 128) \<le> b1 \<Longrightarrow>
   b1 \<le> (if b0 = 237 then 159 else 191) \<Longrightarrow> is_cont b2 \<Longrightarrow>
   utf8_points (b0 # b1 # b2 # bs) =
     map_option ((#) ((b0 - 224) * 4096 + (b1 - 128) * 64 + (b2 - 128))) (utf8_points bs)"
  by simp

lemma utf8_points_four:
  "240 \<le> b0 \<Longrightarrow> b0 \<le> 244 \<Longrightarrow> (if b0 = 240 then 144 else 128) \<le> b1 \<Longrightarrow>
   b1 \<le> (if b0 = 244 then 143 else 191) \<Longrightarrow> is_cont b2 \<Longrightarrow> is_cont b3 \<Longrightarrow>
   utf8_points (b0 # b1 # b2 # b3 # bs) =
     map_option ((#) ((b0 - 240) * 262144 + (b1 - 128) * 4096 + (b2 - 128) * 64 + (b3 - 128)))
       (utf8_points bs)"
  by simp

lemma utf8_points_encode_point:
  assumes "scalar_value c"
  shows "utf8_points (utf8_encode_point c @ bs) = map_option ((#) c) (utf8_points bs)"
proof -
  define r q r1 q1 r2 q2
    where "r = c mod 64" and "q = c div 64" and "r1 = q mod 64" and "q1 = q div 64"
      and "r2 = q1 mod 64" and "q2 = q1 div 64"
  have split: "c = q * 64 + r" "q = q1 * 64 + r1" "q1 = q2 * 64 + r2"
    and small: "r < 64" "r1 < 64" "r2 < 64"
    by (simp_all add: r_def q_def r1_def q1_def r2_def q2_def)
  have d1: "c div 4096 = q1"
  proof -
    have "c div 4096 = c div (64 * 64)" by simp
    also have "\<dots> = c div 64 div 64" by (simp only: div_mult2_eq)
    finally show ?thesis by (simp add: q1_def q_def)
  qed
  have d2: "c div 262144 = q2"
  proof -
    have "c div 262144 = c div (4096 * 64)" by simp
    also have "\<dots> = c div 4096 div 64" by (simp only: div_mult2_eq)
    finally show ?thesis by (simp add: d1 q2_def)
  qed
  have m1: "c div 64 mod 64 = r1" by (simp add: r1_def q_def)
  have m2: "c div 4096 mod 64 = r2" by (simp add: d1 r2_def)
  from assms have "c < 1114112" by (auto simp: scalar_value_def)
  then consider "c < 128" | "128 \<le> c" "c < 2048" | "2048 \<le> c" "c < 65536"
    | "65536 \<le> c" "c < 1114112"
    by linarith
  then show ?thesis
  proof cases
    case 1
    then show ?thesis by (simp add: utf8_encode_point_def)
  next
    case 2
    have enc: "utf8_encode_point c @ bs = (192 + q) # (128 + r) # bs"
      using 2 by (simp add: utf8_encode_point_def q_def r_def)
    have "194 \<le> 192 + q" "192 + q \<le> 223" using 2 split(1) small by linarith+
    moreover have "is_cont (128 + r)" using small by (simp add: is_cont_def)
    moreover have "(192 + q - 192) * 64 + (128 + r - 128) = c" using split(1) by simp
    ultimately show ?thesis
      unfolding enc using utf8_points_two [of "192 + q" "128 + r" bs] by simp
  next
    case 3
    have enc: "utf8_encode_point c @ bs = (224 + q1) # (128 + r1) # (128 + r) # bs"
      using 3 by (simp add: utf8_encode_point_def d1 m1 r_def)
    have "224 \<le> 224 + q1" "224 + q1 \<le> 239" using 3 split(1,2) small by linarith+
    moreover have "q1 = 0 \<Longrightarrow> 32 \<le> r1" using 3 split(1,2) small by linarith
    then have "(if 224 + q1 = 224 then 160 else 128) \<le> 128 + r1" by simp
    moreover have "q1 = 13 \<Longrightarrow> r1 \<le> 31"
      using 3 assms split(1,2) small unfolding scalar_value_def by linarith
    then have "128 + r1 \<le> (if 224 + q1 = 237 then 159 else 191)" using small by simp
    moreover have "is_cont (128 + r)" using small by (simp add: is_cont_def)
    moreover have "(224 + q1 - 224) * 4096 + (128 + r1 - 128) * 64 + (128 + r - 128) = c"
      using split(1,2) by simp
    ultimately show ?thesis
      unfolding enc using utf8_points_three [of "224 + q1" "128 + r1" "128 + r" bs] by simp
  next
    case 4
    have enc: "utf8_encode_point c @ bs =
                 (240 + q2) # (128 + r2) # (128 + r1) # (128 + r) # bs"
      using 4 by (simp add: utf8_encode_point_def d2 m1 m2 r_def)
    have "240 \<le> 240 + q2" "240 + q2 \<le> 244" using 4 split small by linarith+
    moreover have "q2 = 0 \<Longrightarrow> 16 \<le> r2" using 4 split small by linarith
    then have "(if 240 + q2 = 240 then 144 else 128) \<le> 128 + r2" by simp
    moreover have "q2 = 4 \<Longrightarrow> r2 \<le> 15" using 4 split small by linarith
    then have "128 + r2 \<le> (if 240 + q2 = 244 then 143 else 191)" using small by simp
    moreover have "is_cont (128 + r1)" "is_cont (128 + r)"
      using small by (simp_all add: is_cont_def)
    moreover have "(240 + q2 - 240) * 262144 + (128 + r2 - 128) * 4096
                   + (128 + r1 - 128) * 64 + (128 + r - 128) = c"
      using split by simp
    ultimately show ?thesis
      unfolding enc
      using utf8_points_four [of "240 + q2" "128 + r2" "128 + r1" "128 + r" bs] by simp
  qed
qed

lemma utf8_points_encode:
  "list_all scalar_value s \<Longrightarrow> utf8_points (concat (map utf8_encode_point s)) = Some s"
  by (induction s) (simp_all add: utf8_points_encode_point)

lemma utf8_encode_point_bytes:
  assumes "scalar_value c" and "b \<in> set (utf8_encode_point c)"
  shows "b < 256"
proof -
  from assms(1) have "c < 1114112" by (auto simp: scalar_value_def)
  then have "c div 262144 \<le> 4" by simp
  moreover have "c mod 64 < 64" "c div 64 mod 64 < 64" "c div 4096 mod 64 < 64" by simp_all
  moreover have "c < 2048 \<Longrightarrow> c div 64 < 32" "c < 65536 \<Longrightarrow> c div 4096 < 16" by simp_all
  ultimately show ?thesis
    using assms(2) by (auto simp: utf8_encode_point_def split: if_splits)
qed

lemma decode_utf8_encode_utf8:
  assumes "list_all scalar_value s"
  shows "decode_utf8 (encode_utf8 s) = Inr s"
proof -
  have small: "\<forall>b\<in>set (concat (map utf8_encode_point s)). b < 256"
    using assms by (auto simp: list_all_iff dest: utf8_encode_point_bytes)
  have "map unat (map (of_nat :: nat \<Rightarrow> 8 word) (concat (map utf8_encode_point s))) =
             map (\<lambda>b. b) (concat (map utf8_encode_point s))"
    unfolding map_map
  proof (rule map_cong [OF refl])
    fix b assume "b \<in> set (concat (map utf8_encode_point s))"
    with small have "b < 256" by blast
    then show "(unat \<circ> (of_nat :: nat \<Rightarrow> 8 word)) b = b" by (simp add: unat_of_nat)
  qed
  then have "map unat (map (of_nat :: nat \<Rightarrow> 8 word) (concat (map utf8_encode_point s))) =
             concat (map utf8_encode_point s)"
    by simp
  with utf8_points_encode [OF assms] show ?thesis
    by (simp add: decode_utf8_def encode_utf8_def)
qed

end
